theory Spec2Isabelle
  imports Main "HOL-Library.Sublist" "HOL-Library.AList"
begin

section \<open>Python strings\<close>

text \<open>
  A Python \<open>str\<close> is modelled as a \<open>string\<close> holding its UTF-8 bytes. The functions below
  are the \<open>str\<close> methods that \<open>useradmin.py\<close> calls. Whitespace is the ASCII part of what
  \<open>str.isspace\<close> accepts (tab, newline, vertical tab, form feed, carriage return, the
  separators 0x1C to 0x1F, and space); text with other Unicode whitespace or with
  non-ASCII digits is outside the model.
\<close>

definition is_space :: "char \<Rightarrow> bool" where
  "is_space c = (let n = (of_char c :: nat) in (9 \<le> n \<and> n \<le> 13) \<or> (28 \<le> n \<and> n \<le> 32))"

definition is_digit :: "char \<Rightarrow> bool" where
  "is_digit c = (let n = (of_char c :: nat) in 48 \<le> n \<and> n \<le> 57)"

text \<open>\<open>s.split()\<close>: the maximal runs of non-whitespace characters, in order.\<close>

fun words_acc :: "string \<Rightarrow> string \<Rightarrow> string list" where
  "words_acc acc [] = (if acc = [] then [] else [rev acc])"
| "words_acc acc (c # cs) =
     (if is_space c then (if acc = [] then words_acc [] cs else rev acc # words_acc [] cs)
      else words_acc (c # acc) cs)"

definition split_ws :: "string \<Rightarrow> string list" where
  "split_ws s = words_acc [] s"

text \<open>\<open>s.split(sep)\<close> for a one-character separator: empty fields are kept.\<close>

fun split_on :: "char \<Rightarrow> string \<Rightarrow> string list" where
  "split_on sep [] = [[]]"
| "split_on sep (c # cs) =
     (if c = sep then [] # split_on sep cs
      else (case split_on sep cs of [] \<Rightarrow> [[c]] | t # ts \<Rightarrow> (c # t) # ts))"

definition strip :: "string \<Rightarrow> string" where
  "strip s = rev (dropWhile is_space (rev (dropWhile is_space s)))"

definition startswith :: "string \<Rightarrow> string \<Rightarrow> bool" where
  "startswith s p = prefix p s"

text \<open>\<open>p in s\<close> on strings: \<open>p\<close> occurs in \<open>s\<close> as a contiguous substring.\<close>

definition contains :: "string \<Rightarrow> string \<Rightarrow> bool" where
  "contains s p = sublist p s"

definition lower_char :: "char \<Rightarrow> char" where
  "lower_char c = (let n = (of_char c :: nat) in if 65 \<le> n \<and> n \<le> 90 then char_of (n + 32) else c)"

definition lower :: "string \<Rightarrow> string" where
  "lower s = map lower_char s"

text \<open>\<open>sep.join(xs)\<close>.\<close>

fun join :: "string \<Rightarrow> string list \<Rightarrow> string" where
  "join sep [] = []"
| "join sep [x] = x"
| "join sep (x # y # ys) = x @ sep @ join sep (y # ys)"

text \<open>\<open>str(n)\<close> for an integer.\<close>

fun str_nat :: "nat \<Rightarrow> string" where
  "str_nat n = (if n < 10 then [char_of (48 + n)] else str_nat (n div 10) @ [char_of (48 + n mod 10)])"

definition str_int :: "int \<Rightarrow> string" where
  "str_int i = (if i < 0 then CHR ''-'' # str_nat (nat (- i)) else str_nat (nat i))"

text \<open>
  \<open>int(s, base)\<close> for base 8 and 10: surrounding whitespace is stripped, one sign is
  allowed, base 8 allows the prefix \<open>0o\<close>, and single underscores may separate digits
  (and follow the prefix). \<open>None\<close> is Python's \<open>ValueError\<close>. The limit on the number of
  digits of recent interpreters is not modelled.
\<close>

definition digit_val :: "char \<Rightarrow> nat" where
  "digit_val c = (of_char c :: nat) - 48"

fun digits_ok :: "nat \<Rightarrow> bool \<Rightarrow> string \<Rightarrow> bool" where
  "digits_ok b prev [] = prev"
| "digits_ok b prev (c # cs) =
     (if is_digit c \<and> digit_val c < b then digits_ok b True cs
      else if c = CHR ''_'' \<and> prev then digits_ok b False cs
      else False)"

fun digits_val :: "nat \<Rightarrow> nat \<Rightarrow> string \<Rightarrow> nat" where
  "digits_val b acc [] = acc"
| "digits_val b acc (c # cs) =
     (if c = CHR ''_'' then digits_val b acc cs else digits_val b (acc * b + digit_val c) cs)"

definition parse_unsigned :: "nat \<Rightarrow> string \<Rightarrow> nat option" where
  "parse_unsigned b s =
     (let body = (if b = 8 \<and> (take 2 s = ''0o'' \<or> take 2 s = ''0O'')
                  then (if take 1 (drop 2 s) = ''_'' then drop 3 s else drop 2 s)
                  else s)
      in if digits_ok b False body then Some (digits_val b 0 body) else None)"

definition py_int :: "nat \<Rightarrow> string \<Rightarrow> int option" where
  "py_int b s0 =
     (let s = strip s0 in
      case s of
        [] \<Rightarrow> None
      | c # cs \<Rightarrow>
          if c = CHR ''-'' then map_option (\<lambda>n. - int n) (parse_unsigned b cs)
          else if c = CHR ''+'' then map_option int (parse_unsigned b cs)
          else map_option int (parse_unsigned b s))"

section \<open>The environment of the program\<close>

text \<open>
  \<open>UserAdmin\<close> talks to four collaborators: the configuration file, the LDAP server, the
  external tools it starts with \<open>subprocess.run\<close>, and the file system. The record
  \<open>world\<close> holds what they answer and what the program has done to them.

  \<^item> \<open>config (section, option)\<close> is the value of \<open>self.config.get(section, option)\<close>;
    \<open>None\<close> means that the call raises (no such section or option).
  \<^item> \<open>getpass\<close> is what the operator types when \<open>getpass.getpass\<close> prompts; \<open>None\<close> means
    that the prompt raises.
  \<^item> \<open>ldap_bind server bind_dn password\<close> tells whether the connection binds;
    \<open>ldap_dir\<close> maps the distinguished names that exist to their attributes. After a
    successful bind, \<open>search\<close>, \<open>add\<close> and \<open>modify\<close> are taken not to raise (the
    \<open>ldap3\<close> default); the source ignores what \<open>add\<close> and \<open>modify\<close> return.
  \<^item> \<open>proc history cmd\<close> is the outcome of \<open>subprocess.run(cmd, capture_output=True,
    text=True)\<close> after the invocations \<open>history\<close>; \<open>None\<close> means that the call raises (the
    tool cannot be started). \<open>proc_calls\<close> is the list of invocations made so far.
  \<^item> \<open>home_fs history request\<close> is the outcome of the file-system calls of
    \<open>create_home_directory\<close> (lines 244 to 267), taken as one action; \<open>fs_calls\<close> lists
    the requests made so far.
  \<^item> \<open>files name\<close> is what \<open>open(name)\<close> gives: the lines of the file, or the exception.
  \<^item> \<open>logs\<close> are the records written through \<open>self.logger\<close> at the levels info, warning
    and error. Calls of \<open>logger.debug\<close> are left out: they do not change a result.
\<close>

datatype exn = ValueError | KeyError | FileNotFoundError | OtherError

record completed =
  returncode :: int
  stdout :: string
  stderr :: string

datatype fs_outcome = FsRaised | FsNoLocalAccount | FsDone

datatype file_read = NoSuchFile | Unreadable | Lines "string list"

datatype level = Info | Warning | Error

datatype msg =
    LdapUserExists string
  | LdapGroupCreated string
  | LdapUserAdded string
  | LdapAddedToGroup string string
  | LdapException
  | KerberosAdded string
  | KerberosToolError string
  | KerberosException
  | HomeNoLocalAccount string
  | HomeCreated string
  | HomeException
  | QuotaSet string string
  | QuotaToolError string
  | QuotaException
  | AddUserStart string
  | LdapStepFailed
  | KerberosStepFailed
  | HomeStepFailed
  | QuotaStepFailed
  | StepsFailed string
  | AddUserDone string
  | LineBadFormat nat
  | LineParseError nat
  | FileNotFound string
  | FileError

type_synonym entry = "(string \<times> string list) list"

record world =
  config :: "string \<times> string \<Rightarrow> string option"
  euid :: nat
  getpass :: "string option"
  ldap_bind :: "string \<Rightarrow> string \<Rightarrow> string \<Rightarrow> bool"
  ldap_dir :: "string \<Rightarrow> entry option"
  proc :: "string list list \<Rightarrow> string list \<Rightarrow> completed option"
  proc_calls :: "string list list"
  home_fs :: "(string \<times> string \<times> int \<times> string) list \<Rightarrow> string \<times> string \<times> int \<times> string \<Rightarrow> fs_outcome"
  fs_calls :: "(string \<times> string \<times> int \<times> string) list"
  files :: "string \<Rightarrow> file_read"
  logs :: "(level \<times> msg) list"

definition say :: "level \<Rightarrow> msg \<Rightarrow> world \<Rightarrow> world" where
  "say l m w = w\<lparr>logs := logs w @ [(l, m)]\<rparr>"

definition config_get :: "world \<Rightarrow> string \<Rightarrow> string \<Rightarrow> string option" where
  "config_get w section option = config w (section, option)"

text \<open>\<open>self.config.get(section, option, fallback=d)\<close>.\<close>

definition config_get_fallback :: "world \<Rightarrow> string \<Rightarrow> string \<Rightarrow> 'a \<Rightarrow> (string \<Rightarrow> 'a) \<Rightarrow> 'a" where
  "config_get_fallback w section option d f =
     (case config w (section, option) of None \<Rightarrow> d | Some v \<Rightarrow> f v)"

text \<open>\<open>subprocess.run\<close>: the invocation is recorded, the environment answers.\<close>

definition run :: "world \<Rightarrow> string list \<Rightarrow> completed option \<times> world" where
  "run w cmd = (proc w (proc_calls w) cmd, w\<lparr>proc_calls := proc_calls w @ [cmd]\<rparr>)"

subsection \<open>The directory connection\<close>

text \<open>\<open>_get_ldap_connection\<close> (lines 115 to 134): \<open>Inl\<close> when anything in it raises.\<close>

definition get_ldap_connection :: "world \<Rightarrow> exn + unit" where
  "get_ldap_connection w =
     (case config_get w ''LDAP'' ''server'' of
        None \<Rightarrow> Inl OtherError
      | Some server \<Rightarrow>
     (case config_get w ''LDAP'' ''bind_password'' of
        None \<Rightarrow> Inl OtherError
      | Some configured \<Rightarrow>
     (case (if configured = [] then getpass w else Some configured) of
        None \<Rightarrow> Inl OtherError
      | Some bind_password \<Rightarrow>
     (case config_get w ''LDAP'' ''bind_dn'' of
        None \<Rightarrow> Inl OtherError
      | Some bind_dn \<Rightarrow>
          if ldap_bind w server bind_dn bind_password then Inr () else Inl OtherError))))"

text \<open>\<open>conn.search(dn, '(objectClass=*)', search_scope=ldap3.BASE)\<close>: does the entry exist.\<close>

definition ldap_search :: "world \<Rightarrow> string \<Rightarrow> bool" where
  "ldap_search w dn = (ldap_dir w dn \<noteq> None)"

text \<open>\<open>conn.add(dn, attributes=attrs)\<close>: the server refuses a name that exists.\<close>

definition ldap_add :: "world \<Rightarrow> string \<Rightarrow> entry \<Rightarrow> world" where
  "ldap_add w dn attrs =
     (if ldap_dir w dn = None then w\<lparr>ldap_dir := (ldap_dir w)(dn \<mapsto> attrs)\<rparr> else w)"

text \<open>\<open>conn.modify(dn, {attr: [(ldap3.MODIFY_ADD, [v])]})\<close>: the server refuses a value that
  the attribute has already.\<close>

definition ldap_modify_add :: "world \<Rightarrow> string \<Rightarrow> string \<Rightarrow> string \<Rightarrow> world" where
  "ldap_modify_add w dn attr v =
     (case ldap_dir w dn of
        None \<Rightarrow> w
      | Some e \<Rightarrow>
          (case map_of e attr of
             None \<Rightarrow> w\<lparr>ldap_dir := (ldap_dir w)(dn \<mapsto> e @ [(attr, [v])])\<rparr>
           | Some vs \<Rightarrow>
               if v \<in> set vs then w
               else w\<lparr>ldap_dir := (ldap_dir w)(dn \<mapsto> AList.update attr (vs @ [v]) e)\<rparr>))"

text \<open>\<open>_get_kadmin_password\<close> (lines 136 to 141).\<close>

definition get_kadmin_password :: "world \<Rightarrow> string option" where
  "get_kadmin_password w =
     (case config_get w ''KERBEROS'' ''kadmin_password'' of
        None \<Rightarrow> None
      | Some password \<Rightarrow> if password = [] then getpass w else Some password)"

section \<open>The provisioning steps\<close>

text \<open>
  Each step is a method that wraps its body in \<open>try: ... except Exception\<close> and returns a
  boolean. The body is modelled with its exception as \<open>Inl\<close>; the method turns \<open>Inl\<close> into
  \<open>False\<close> and writes the error record. What the body did before it raised stays done.
\<close>

subsection \<open>\<open>add_user_to_ldap\<close> (lines 145 to 205)\<close>

definition group_attrs :: "int \<Rightarrow> string \<Rightarrow> entry" where
  "group_attrs uid username =
     [(''objectClass'', [''top'', ''posixGroup'']),
      (''cn'', [username]),
      (''gidNumber'', [str_int uid]),
      (''memberUid'', [username]),
      (''description'', [''Primary group for user '' @ username])]"

definition user_attrs :: "int \<Rightarrow> string \<Rightarrow> string \<Rightarrow> string \<Rightarrow> string \<Rightarrow> entry" where
  "user_attrs uid username surname firstname home_base =
     (let full_name = firstname @ '' '' @ surname in
      [(''objectClass'', [''top'', ''person'', ''organizationalPerson'', ''inetOrgPerson'',
                          ''posixAccount'', ''shadowAccount'']),
       (''uid'', [username]),
       (''uidNumber'', [str_int uid]),
       (''gidNumber'', [str_int uid]),
       (''cn'', [full_name]),
       (''sn'', [surname]),
       (''givenName'', [firstname]),
       (''homeDirectory'', [home_base @ ''/'' @ username]),
       (''loginShell'', [''/bin/bash'']),
       (''description'', [''User '' @ username @ '' ('' @ full_name @ '')''])])"

text \<open>The loop of lines 194 to 199, one group at a time.\<close>

definition add_to_group :: "string \<Rightarrow> string \<Rightarrow> string \<Rightarrow> string \<Rightarrow> string \<Rightarrow> world \<Rightarrow> world" where
  "add_to_group username group_ou base_dn primary_group group_name w =
     (if group_name \<noteq> primary_group then
        (let group_dn = ''cn='' @ group_name @ '','' @ group_ou @ '','' @ base_dn in
         if ldap_search w group_dn
         then say Info (LdapAddedToGroup username group_name)
                (ldap_modify_add w group_dn ''memberUid'' username)
         else w)
      else w)"

definition add_user_to_ldap_body ::
  "world \<Rightarrow> int \<Rightarrow> string \<Rightarrow> string \<Rightarrow> string \<Rightarrow> string list \<Rightarrow> (exn + bool) \<times> world" where
  "add_user_to_ldap_body w uid username surname firstname groups =
     (case get_ldap_connection w of
        Inl e \<Rightarrow> (Inl e, w)
      | Inr conn \<Rightarrow>
     (case config_get w ''LDAP'' ''user_ou'' of
        None \<Rightarrow> (Inl OtherError, w)
      | Some user_ou \<Rightarrow>
     (case config_get w ''LDAP'' ''base_dn'' of
        None \<Rightarrow> (Inl OtherError, w)
      | Some base_dn \<Rightarrow>
     (let user_dn = ''uid='' @ username @ '','' @ user_ou @ '','' @ base_dn in
      if ldap_search w user_dn
      then (Inr False, say Warning (LdapUserExists username) w)
      else
     (let primary_group = username in
      case config_get w ''LDAP'' ''group_ou'' of
        None \<Rightarrow> (Inl OtherError, w)
      | Some group_ou \<Rightarrow>
     (let group_dn = ''cn='' @ primary_group @ '','' @ group_ou @ '','' @ base_dn;
          w1 = (if \<not> ldap_search w group_dn
                then say Info (LdapGroupCreated primary_group)
                       (ldap_add w group_dn (group_attrs uid username))
                else w)
      in case config_get w1 ''NFS'' ''home_base'' of
           None \<Rightarrow> (Inl OtherError, w1)
         | Some home_base \<Rightarrow>
             (let w2 = say Info (LdapUserAdded username)
                         (ldap_add w1 user_dn (user_attrs uid username surname firstname home_base));
                  w3 = fold (add_to_group username group_ou base_dn primary_group) groups w2
              in (Inr True, w3))))))))"

definition add_user_to_ldap ::
  "world \<Rightarrow> int \<Rightarrow> string \<Rightarrow> string \<Rightarrow> string \<Rightarrow> string list \<Rightarrow> bool \<times> world" where
  "add_user_to_ldap w uid username surname firstname groups =
     (case add_user_to_ldap_body w uid username surname firstname groups of
        (Inr ok, w') \<Rightarrow> (ok, w')
      | (Inl e, w') \<Rightarrow> (False, say Error LdapException w'))"

subsection \<open>\<open>add_user_to_kerberos\<close> (lines 207 to 232)\<close>

definition add_user_to_kerberos_body :: "world \<Rightarrow> string \<Rightarrow> string \<Rightarrow> (exn + bool) \<times> world" where
  "add_user_to_kerberos_body w username password =
     (case get_kadmin_password w of
        None \<Rightarrow> (Inl OtherError, w)
      | Some kadmin_password \<Rightarrow>
     (case config_get w ''KERBEROS'' ''realm'' of
        None \<Rightarrow> (Inl OtherError, w)
      | Some realm \<Rightarrow>
     (let principal = username @ ''@'' @ realm in
      case config_get w ''KERBEROS'' ''kadmin_principal'' of
        None \<Rightarrow> (Inl OtherError, w)
      | Some kadmin_principal \<Rightarrow>
     (let cmd = [''kadmin'', ''-p'', kadmin_principal, ''-w'', kadmin_password,
                 ''-q'', ''addprinc -pw '' @ [CHR 0x22] @ password @ [CHR 0x22] @ '' '' @ principal]
      in case run w cmd of
           (None, w1) \<Rightarrow> (Inl OtherError, w1)
         | (Some result, w1) \<Rightarrow>
             if returncode result = 0
             then (Inr True, say Info (KerberosAdded username) w1)
             else (Inr False, say Error (KerberosToolError (stderr result)) w1)))))"

definition add_user_to_kerberos :: "world \<Rightarrow> string \<Rightarrow> string \<Rightarrow> bool \<times> world" where
  "add_user_to_kerberos w username password =
     (case add_user_to_kerberos_body w username password of
        (Inr ok, w') \<Rightarrow> (ok, w')
      | (Inl e, w') \<Rightarrow> (False, say Error KerberosException w'))"

subsection \<open>\<open>create_home_directory\<close> (lines 234 to 277)\<close>

text \<open>
  \<open>Path(home_base) / username\<close> is passed to the file system only; the normal form that
  \<open>pathlib\<close> gives it is not modelled. The file-system calls (make the directory, set
  its mode, copy the skeleton, look the account up and give it the tree) answer
  \<open>FsDone\<close>, \<open>FsNoLocalAccount\<close> when \<open>pwd.getpwnam\<close> raises \<open>KeyError\<close> (caught inside,
  line 268), or \<open>FsRaised\<close> for any other exception.
\<close>

definition create_home_directory_body :: "world \<Rightarrow> string \<Rightarrow> (exn + bool) \<times> world" where
  "create_home_directory_body w username =
     (case config_get w ''NFS'' ''home_base'' of
        None \<Rightarrow> (Inl OtherError, w)
      | Some home_base \<Rightarrow>
     (case config_get w ''NFS'' ''skel_dir'' of
        None \<Rightarrow> (Inl OtherError, w)
      | Some skel_dir \<Rightarrow>
     (let home_dir = home_base @ ''/'' @ username;
          permissions_str = config_get_fallback w ''NFS'' ''home_permissions'' ''750'' (\<lambda>v. v)
      in case py_int 8 permissions_str of
           None \<Rightarrow> (Inl ValueError, w)
         | Some permissions \<Rightarrow>
             (let request = (home_dir, skel_dir, permissions, username);
                  w1 = w\<lparr>fs_calls := fs_calls w @ [request]\<rparr>
              in case home_fs w (fs_calls w) request of
                   FsRaised \<Rightarrow> (Inl OtherError, w1)
                 | FsNoLocalAccount \<Rightarrow>
                     (Inr True, say Info (HomeCreated username)
                                  (say Warning (HomeNoLocalAccount username) w1))
                 | FsDone \<Rightarrow> (Inr True, say Info (HomeCreated username) w1)))))"

definition create_home_directory :: "world \<Rightarrow> string \<Rightarrow> bool \<times> world" where
  "create_home_directory w username =
     (case create_home_directory_body w username of
        (Inr ok, w') \<Rightarrow> (ok, w')
      | (Inl e, w') \<Rightarrow> (False, say Error HomeException w'))"

subsection \<open>\<open>get_filesystem_type\<close> (lines 449 to 471)\<close>

definition get_filesystem_type :: "world \<Rightarrow> string \<Rightarrow> string \<times> world" where
  "get_filesystem_type w path =
     (case run w [''df'', ''-T'', path] of
        (None, w1) \<Rightarrow> (''ext4'', w1)
      | (Some result, w1) \<Rightarrow>
          if returncode result = 0 then
            (let lines = split_on CHR 0x0A (strip (stdout result)) in
             if length lines \<ge> 2 then
               (let parts = split_ws (lines ! 1) in
                if length parts \<ge> 2 then
                  (let fs_type = lower (parts ! 1) in
                   if fs_type \<in> set [''xfs'', ''ext4'', ''ext3'', ''ext2'']
                   then (fs_type, w1)
                   else (''ext4'', w1))
                else (''ext4'', w1))
             else (''ext4'', w1))
          else (''ext4'', w1))"

text \<open>
  The file-system type as \<open>set_user_quota\<close>, \<open>get_all_quotas\<close> and \<open>get_user_quota\<close>
  resolve it: the configured value when there is a non-empty one, else detection.
\<close>

definition resolve_filesystem_type :: "world \<Rightarrow> string \<Rightarrow> string \<times> world" where
  "resolve_filesystem_type w home_base =
     (case config_get_fallback w ''QUOTAS'' ''filesystem_type'' None Some of
        None \<Rightarrow> get_filesystem_type w home_base
      | Some config_fs_type \<Rightarrow>
          if config_fs_type \<noteq> [] then (config_fs_type, w)
          else get_filesystem_type w home_base)"

subsection \<open>\<open>set_user_quota\<close> (lines 279 to 322)\<close>

definition set_user_quota_body :: "world \<Rightarrow> string \<Rightarrow> (exn + bool) \<times> world" where
  "set_user_quota_body w username =
     (case config_get w ''NFS'' ''home_base'' of
        None \<Rightarrow> (Inl OtherError, w)
      | Some home_base \<Rightarrow>
     (case resolve_filesystem_type w home_base of (filesystem_type, w1) \<Rightarrow>
     (case config_get w1 ''QUOTAS'' ''default_soft_limit'' of
        None \<Rightarrow> (Inl OtherError, w1)
      | Some soft_limit \<Rightarrow>
     (case config_get w1 ''QUOTAS'' ''default_hard_limit'' of
        None \<Rightarrow> (Inl OtherError, w1)
      | Some hard_limit \<Rightarrow>
     (case config_get w1 ''QUOTAS'' ''default_inode_soft_limit'' of
        None \<Rightarrow> (Inl OtherError, w1)
      | Some inode_soft_limit \<Rightarrow>
     (case config_get w1 ''QUOTAS'' ''default_inode_hard_limit'' of
        None \<Rightarrow> (Inl OtherError, w1)
      | Some inode_hard_limit \<Rightarrow>
     (let cmd =
        (if lower filesystem_type = ''xfs''
         then [''xfs_quota'', ''-x'', ''-c'',
               ''limit bsoft='' @ soft_limit @ '' bhard='' @ hard_limit @
               '' isoft='' @ inode_soft_limit @ '' ihard='' @ inode_hard_limit @
               '' '' @ username,
               home_base]
         else [''setquota'', ''-u'', username,
               soft_limit, hard_limit, inode_soft_limit, inode_hard_limit, home_base])
      in case run w1 cmd of
           (None, w2) \<Rightarrow> (Inl OtherError, w2)
         | (Some result, w2) \<Rightarrow>
             if returncode result = 0
             then (Inr True, say Info (QuotaSet username filesystem_type) w2)
             else (Inr False, say Error (QuotaToolError (stderr result)) w2))))))))"

definition set_user_quota :: "world \<Rightarrow> string \<Rightarrow> bool \<times> world" where
  "set_user_quota w username =
     (case set_user_quota_body w username of
        (Inr ok, w') \<Rightarrow> (ok, w')
      | (Inl e, w') \<Rightarrow> (False, say Error QuotaException w'))"

section \<open>The workflow: \<open>add_user\<close> (lines 324 to 368)\<close>

text \<open>
  \<open>results\<close> is a Python \<open>dict\<close>: it keeps its keys in the order of their first
  insertion, so it is an association list here. \<open>add_user_results\<close> is the method up to
  line 359 and gives the dictionary; \<open>add_user\<close> is the whole method.
\<close>

type_synonym results = "(string \<times> bool) list"

definition default_steps :: "string list" where
  "default_steps = [''ldap'', ''kerberos'', ''home'', ''quota'']"

text \<open>
  The four blocks of lines 338 to 359 have one shape:
  \<open>if name in steps: results[name] = method(...); if not results[name]: logger.error(...)\<close>.
  \<open>run_step\<close> is that block, given the name, the error record and the method.
\<close>

definition run_step ::
  "string \<Rightarrow> msg \<Rightarrow> string list \<Rightarrow> (world \<Rightarrow> bool \<times> world) \<Rightarrow> results \<times> world
     \<Rightarrow> results \<times> world" where
  "run_step name failed steps method state =
     (case state of (results, w) \<Rightarrow>
        if name \<in> set steps then
          (case method w of
             (ok, w') \<Rightarrow>
               (AList.update name ok results, if \<not> ok then say Error failed w' else w'))
        else (results, w))"

definition add_user_results ::
  "world \<Rightarrow> int \<Rightarrow> string \<Rightarrow> string \<Rightarrow> string \<Rightarrow> string \<Rightarrow> string \<Rightarrow> string list option
     \<Rightarrow> results \<times> world" where
  "add_user_results w uid groups username surname firstname password steps_arg =
     (let steps = (case steps_arg of None \<Rightarrow> default_steps | Some l \<Rightarrow> l);
          w0 = say Info (AddUserStart username) w;
          group_list = map strip (split_on CHR '','' groups);
          s0 = ([], w0);
          s1 = run_step ''ldap'' LdapStepFailed steps
                 (\<lambda>w. add_user_to_ldap w uid username surname firstname group_list) s0;
          s2 = run_step ''kerberos'' KerberosStepFailed steps
                 (\<lambda>w. add_user_to_kerberos w username password) s1;
          s3 = run_step ''home'' HomeStepFailed steps
                 (\<lambda>w. create_home_directory w username) s2;
          s4 = run_step ''quota'' QuotaStepFailed steps
                 (\<lambda>w. set_user_quota w username) s3
      in s4)"

definition add_user ::
  "world \<Rightarrow> int \<Rightarrow> string \<Rightarrow> string \<Rightarrow> string \<Rightarrow> string \<Rightarrow> string \<Rightarrow> string list option
     \<Rightarrow> bool \<times> world" where
  "add_user w uid groups username surname firstname password steps =
     (case add_user_results w uid groups username surname firstname password steps of
        (results, w') \<Rightarrow>
          (let failed_steps = map fst (filter (\<lambda>(step, success). \<not> success) results) in
           if failed_steps \<noteq> []
           then (False, say Error (StepsFailed (join '', '' failed_steps)) w')
           else (True, say Info (AddUserDone username) w')))"

section \<open>The batch file: \<open>process_user_file\<close> (lines 370 to 403)\<close>

text \<open>
  The body of the loop for one line of the manifest, with its number. \<open>int(uid)\<close> is
  the only call that raises \<open>ValueError\<close>: \<open>add_user\<close> returns a boolean whatever
  its steps do.
\<close>

definition process_line ::
  "world \<Rightarrow> results \<Rightarrow> nat \<Rightarrow> string \<Rightarrow> string list option \<Rightarrow> results \<times> world" where
  "process_line w results line_num raw steps =
     (let line = strip raw in
      if line = [] \<or> startswith line ''#'' then (results, w)
      else
        (let parts = split_ws line in
         if length parts \<noteq> 6 then (results, say Warning (LineBadFormat line_num) w)
         else
           (let uid = parts ! 0; groups = parts ! 1; username = parts ! 2;
                surname = parts ! 3; firstname = parts ! 4; password = parts ! 5
            in case py_int 10 uid of
                 None \<Rightarrow> (results, say Error (LineParseError line_num) w)
               | Some n \<Rightarrow>
                   (case add_user w n groups username surname firstname password steps of
                      (success, w') \<Rightarrow> (AList.update username success results, w')))))"

fun process_lines ::
  "world \<Rightarrow> results \<Rightarrow> nat \<Rightarrow> string list \<Rightarrow> string list option \<Rightarrow> results \<times> world" where
  "process_lines w results line_num [] steps = (results, w)"
| "process_lines w results line_num (raw # rest) steps =
     (case process_line w results line_num raw steps of
        (results', w') \<Rightarrow> process_lines w' results' (Suc line_num) rest steps)"

definition process_user_file :: "world \<Rightarrow> string \<Rightarrow> string list option \<Rightarrow> results \<times> world" where
  "process_user_file w filename steps =
     (case files w filename of
        NoSuchFile \<Rightarrow> ([], say Error (FileNotFound filename) w)
      | Unreadable \<Rightarrow> ([], say Error FileError w)
      | Lines ls \<Rightarrow> process_lines w [] 1 ls steps)"

section \<open>The status checks\<close>

subsection \<open>\<open>check_kerberos_principal\<close> (lines 405 to 437)\<close>

definition check_kerberos_principal_body :: "world \<Rightarrow> string \<Rightarrow> (exn + bool) \<times> world" where
  "check_kerberos_principal_body w username =
     (case config_get w ''KERBEROS'' ''realm'' of
        None \<Rightarrow> (Inl OtherError, w)
      | Some realm \<Rightarrow>
     (let principal = username @ ''@'' @ realm;
          check_method = config_get_fallback w ''KERBEROS'' ''check_method'' ''kadmin'' (\<lambda>v. v)
      in if check_method = ''kadmin.local'' \<and> euid w = 0 then
           (case run w [''kadmin.local'', ''-q'', ''getprinc '' @ principal] of
              (None, w1) \<Rightarrow> (Inl OtherError, w1)
            | (Some result, w1) \<Rightarrow>
                (Inr (returncode result = 0
                      \<and> contains (stdout result) (''Principal: '' @ principal)), w1))
         else
           (case config_get w ''KERBEROS'' ''kadmin_principal'' of
              None \<Rightarrow> (Inl OtherError, w)
            | Some kadmin_principal \<Rightarrow>
           (case get_kadmin_password w of
              None \<Rightarrow> (Inl OtherError, w)
            | Some kadmin_password \<Rightarrow>
           (case run w [''kadmin'', ''-p'', kadmin_principal, ''-w'', kadmin_password,
                        ''-q'', ''getprinc '' @ principal] of
              (None, w1) \<Rightarrow> (Inl OtherError, w1)
            | (Some result, w1) \<Rightarrow>
                (Inr (returncode result = 0
                      \<and> contains (stdout result) (''Principal: '' @ principal)), w1))))))"

definition check_kerberos_principal :: "world \<Rightarrow> string \<Rightarrow> bool \<times> world" where
  "check_kerberos_principal w username =
     (case check_kerberos_principal_body w username of
        (Inr found, w') \<Rightarrow> (found, w')
      | (Inl e, w') \<Rightarrow> (False, w'))"

section \<open>Quota reports\<close>

text \<open>
  The two strings that stand for "no quota" and "error" are Cyrillic in the source
  (lines 580, 606, 645 and 609); they are given by their UTF-8 bytes.
\<close>

definition not_set :: string where
  "not_set = [CHR 0xD0, CHR 0x9D, CHR 0xD0, CHR 0xB5, CHR 0x20, CHR 0xD1, CHR 0x83, CHR 0xD1,
              CHR 0x81, CHR 0xD1, CHR 0x82, CHR 0xD0, CHR 0xB0, CHR 0xD0, CHR 0xBD, CHR 0xD0,
              CHR 0xBE, CHR 0xD0, CHR 0xB2, CHR 0xD0, CHR 0xBB, CHR 0xD0, CHR 0xB5, CHR 0xD0,
              CHR 0xBD, CHR 0xD0, CHR 0xB0]"

definition error_str :: string where
  "error_str = [CHR 0xD0, CHR 0x9E, CHR 0xD1, CHR 0x88, CHR 0xD0, CHR 0xB8, CHR 0xD0, CHR 0xB1,
                CHR 0xD0, CHR 0xBA, CHR 0xD0, CHR 0xB0]"

text \<open>\<open>text.strip().split('\\n')\<close>.\<close>

definition report_lines :: "string \<Rightarrow> string list" where
  "report_lines text = split_on CHR 0x0A (strip text)"

subsection \<open>\<open>get_all_quotas\<close> (lines 473 to 536)\<close>

text \<open>\<open>quotas\<close> is a dictionary of dictionaries: user name to field name to text.\<close>

type_synonym quota_table = "(string \<times> (string \<times> string) list) list"

definition xfs_skipped :: "string list" where
  "xfs_skipped = [''User'', ''User ID'', ''----------'', ''root'']"

definition generic_skipped :: "string list" where
  "generic_skipped = [''Filesystem'', ''root'']"

text \<open>The body of the loops of lines 496 to 502 (\<open>key\<close> is \<open>blocks\<close>) and 507 to 513
  (\<open>key\<close> is \<open>inodes\<close>).\<close>

definition parse_xfs_line :: "string \<Rightarrow> string \<Rightarrow> quota_table \<Rightarrow> quota_table" where
  "parse_xfs_line key line quotas =
     (let parts = split_ws line in
      if length parts \<ge> 5 \<and> parts ! 0 \<notin> set xfs_skipped then
        (let username = parts ! 0;
             quotas1 = (if map_of quotas username = None
                        then AList.update username [] quotas else quotas);
             record = (case map_of quotas1 username of None \<Rightarrow> [] | Some r \<Rightarrow> r)
         in AList.update username
              (AList.update key (parts ! 1 @ ''/'' @ parts ! 2 @ ''/'' @ parts ! 3) record)
              quotas1)
      else quotas)"

definition parse_xfs_report :: "string \<Rightarrow> completed \<Rightarrow> quota_table \<Rightarrow> quota_table" where
  "parse_xfs_report key result quotas =
     (if returncode result = 0
      then fold (parse_xfs_line key) (report_lines (stdout result)) quotas
      else quotas)"

text \<open>\<open>d.get(k, default)\<close>.\<close>

definition dict_get :: "('k \<times> 'v) list \<Rightarrow> 'k \<Rightarrow> 'v \<Rightarrow> 'v" where
  "dict_get d k dflt = (case map_of d k of None \<Rightarrow> dflt | Some v \<Rightarrow> v)"

text \<open>The loop of lines 516 to 519.\<close>

definition add_quota_str :: "quota_table \<Rightarrow> quota_table" where
  "add_quota_str quotas =
     map (\<lambda>(username, record).
            (let blocks_info = dict_get record ''blocks'' ''-'';
                 inodes_info = dict_get record ''inodes'' ''-''
             in (username,
                 AList.update ''quota_str''
                   (''blocks: '' @ blocks_info @ ''; inodes: '' @ inodes_info) record)))
         quotas"

text \<open>The body of the loop of lines 526 to 532.\<close>

definition parse_generic_line :: "string \<Rightarrow> quota_table \<Rightarrow> quota_table" where
  "parse_generic_line line quotas =
     (let parts = split_ws line in
      if length parts \<ge> 6 \<and> parts ! 0 \<notin> set generic_skipped then
        (let username = parts ! 0 in
         AList.update username
           [(''quota_str'', ''blocks: '' @ parts ! 1 @ ''/'' @ parts ! 2 @
                            ''; inodes: '' @ parts ! 4 @ ''/'' @ parts ! 5)]
           quotas)
      else quotas)"

definition parse_generic_report :: "completed \<Rightarrow> quota_table" where
  "parse_generic_report result =
     (if returncode result = 0
      then fold parse_generic_line (report_lines (stdout result)) []
      else [])"

definition cmd_blocks :: "string \<Rightarrow> string list" where
  "cmd_blocks home_base = [''xfs_quota'', ''-x'', ''-c'', ''report -h'', home_base]"

definition cmd_inodes :: "string \<Rightarrow> string list" where
  "cmd_inodes home_base = [''xfs_quota'', ''-x'', ''-c'', ''report -h -i'', home_base]"

text \<open>An exception leaves the method through line 533 with \<open>quotas\<close> as it is then: empty,
  since both reports are fetched before the first row is stored.\<close>

definition get_all_quotas :: "world \<Rightarrow> quota_table \<times> world" where
  "get_all_quotas w =
     (case config_get w ''NFS'' ''home_base'' of
        None \<Rightarrow> ([], w)
      | Some home_base \<Rightarrow>
     (case resolve_filesystem_type w home_base of (filesystem_type, w1) \<Rightarrow>
      if lower filesystem_type = ''xfs'' then
        (case run w1 (cmd_blocks home_base) of
           (None, w2) \<Rightarrow> ([], w2)
         | (Some result_blocks, w2) \<Rightarrow>
        (case run w2 (cmd_inodes home_base) of
           (None, w3) \<Rightarrow> ([], w3)
         | (Some result_inodes, w3) \<Rightarrow>
             (add_quota_str
                (parse_xfs_report ''inodes'' result_inodes
                   (parse_xfs_report ''blocks'' result_blocks [])), w3)))
      else
        (case run w1 [''quota'', ''-a''] of
           (None, w2) \<Rightarrow> ([], w2)
         | (Some result, w2) \<Rightarrow> (parse_generic_report result, w2))))"

subsection \<open>\<open>get_user_quota\<close> (lines 538 to 609)\<close>

text \<open>The body of the loops of lines 555 to 561 and 569 to 575.\<close>

definition scan_xfs_line :: "string \<Rightarrow> string \<Rightarrow> string option \<Rightarrow> string option" where
  "scan_xfs_line username line info =
     (if startswith (strip line) username then
        (let parts = split_ws line in
         if length parts \<ge> 5
         then Some (parts ! 1 @ ''/'' @ parts ! 2 @ ''/'' @ parts ! 3)
         else info)
      else info)"

definition scan_xfs_report :: "string \<Rightarrow> completed \<Rightarrow> string option" where
  "scan_xfs_report username result =
     (if returncode result = 0
      then fold (scan_xfs_line username) (report_lines (stdout result)) None
      else None)"

text \<open>The truth value of an optional string: \<open>None\<close> and the empty string are false.\<close>

definition truthy :: "string option \<Rightarrow> bool" where
  "truthy info = (case info of None \<Rightarrow> False | Some s \<Rightarrow> s \<noteq> [])"

text \<open>\<open>info if info else '-'\<close>.\<close>

definition or_dash :: "string option \<Rightarrow> string" where
  "or_dash info = (case info of None \<Rightarrow> ''-'' | Some s \<Rightarrow> if s \<noteq> [] then s else ''-'')"

text \<open>Lines 576 to 580.\<close>

definition render_xfs :: "string option \<Rightarrow> string option \<Rightarrow> string" where
  "render_xfs blocks_info inodes_info =
     (if truthy blocks_info \<or> truthy inodes_info
      then ''blocks: '' @ or_dash blocks_info @ ''; inodes: '' @ or_dash inodes_info
      else not_set)"

text \<open>Lines 588 to 606.\<close>

definition render_generic :: "completed \<Rightarrow> string" where
  "render_generic result =
     (if returncode result = 0 then
        (let lines = report_lines (stdout result) in
         if length lines \<ge> 3 then
           (let parts = split_ws (lines ! 2) in
            if length parts \<ge> 6 then
              (let block_usage = parts ! 1 @ ''/'' @ parts ! 2;
                   inode_usage = parts ! 4 @ ''/'' @ parts ! 5
               in ''blocks: '' @ block_usage @ ''; inodes: '' @ inode_usage)
            else if length parts \<ge> 4 then ''blocks: '' @ parts ! 1 @ ''/'' @ parts ! 2
            else not_set)
         else not_set)
      else not_set)"

definition get_user_quota :: "world \<Rightarrow> string \<Rightarrow> string \<times> world" where
  "get_user_quota w username =
     (case config_get w ''NFS'' ''home_base'' of
        None \<Rightarrow> (error_str, w)
      | Some home_base \<Rightarrow>
     (case resolve_filesystem_type w home_base of (filesystem_type, w1) \<Rightarrow>
      if lower filesystem_type = ''xfs'' then
        (case run w1 (cmd_blocks home_base) of
           (None, w2) \<Rightarrow> (error_str, w2)
         | (Some result_blocks, w2) \<Rightarrow>
        (let blocks_info = scan_xfs_report username result_blocks in
         case run w2 (cmd_inodes home_base) of
           (None, w3) \<Rightarrow> (error_str, w3)
         | (Some result_inodes, w3) \<Rightarrow>
             (let inodes_info = scan_xfs_report username result_inodes
              in (render_xfs blocks_info inodes_info, w3))))
      else
        (case run w1 [''quota'', ''-u'', username] of
           (None, w2) \<Rightarrow> (error_str, w2)
         | (Some result, w2) \<Rightarrow> (render_generic result, w2))))"

subsection \<open>The quota cell of \<open>list_users\<close> (line 645)\<close>

text \<open>
  \<open>list_users(detailed=True)\<close> calls \<open>get_all_quotas\<close> once (line 630) and reads the quota
  of every directory entry from the table it returned:
  \<open>all_quotas.get(uid, {}).get('quota_str', not_set)\<close>. The rest of \<open>list_users\<close> (the
  directory search and the two status checks) is not modelled.
\<close>

definition list_users_quota :: "quota_table \<Rightarrow> string \<Rightarrow> string" where
  "list_users_quota all_quotas uid = dict_get (dict_get all_quotas uid []) ''quota_str'' not_set"

section \<open>Observations and sample environments\<close>

text \<open>The steps that a call of \<open>add_user\<close> asks for: all four when \<open>steps\<close> is \<open>None\<close>.\<close>

definition requested :: "string list option \<Rightarrow> string list" where
  "requested steps_arg = (case steps_arg of None \<Rightarrow> default_steps | Some l \<Rightarrow> l)"

text \<open>
  The step that a log record belongs to: the records that a step method writes, and the
  record that \<open>add_user\<close> writes right after the step when it failed. Every call of a
  step method writes at least one record, so the log shows which steps ran and in which
  order: \<open>step_trace\<close> is the sequence of steps of a piece of log, each run of records of
  one step counted once.
\<close>

fun step_of :: "msg \<Rightarrow> string option" where
  "step_of (LdapUserExists u) = Some ''ldap''"
| "step_of (LdapGroupCreated g) = Some ''ldap''"
| "step_of (LdapUserAdded u) = Some ''ldap''"
| "step_of (LdapAddedToGroup u g) = Some ''ldap''"
| "step_of LdapException = Some ''ldap''"
| "step_of LdapStepFailed = Some ''ldap''"
| "step_of (KerberosAdded u) = Some ''kerberos''"
| "step_of (KerberosToolError e) = Some ''kerberos''"
| "step_of KerberosException = Some ''kerberos''"
| "step_of KerberosStepFailed = Some ''kerberos''"
| "step_of (HomeNoLocalAccount u) = Some ''home''"
| "step_of (HomeCreated u) = Some ''home''"
| "step_of HomeException = Some ''home''"
| "step_of HomeStepFailed = Some ''home''"
| "step_of (QuotaSet u t) = Some ''quota''"
| "step_of (QuotaToolError e) = Some ''quota''"
| "step_of QuotaException = Some ''quota''"
| "step_of QuotaStepFailed = Some ''quota''"
| "step_of m = None"

definition step_trace :: "(level \<times> msg) list \<Rightarrow> string list" where
  "step_trace l = remdups_adj (List.map_filter (\<lambda>r. step_of (snd r)) l)"

text \<open>The log records written since the log was \<open>before\<close>.\<close>

definition logged_since :: "world \<Rightarrow> world \<Rightarrow> (level \<times> msg) list" where
  "logged_since before after = drop (length (logs before)) (logs after)"

text \<open>A configuration as \<open>_create_default_config\<close> writes it, with the passwords filled in
  and the file-system type set to \<open>xfs\<close>.\<close>

definition sample_config :: "string \<times> string \<Rightarrow> string option" where
  "sample_config = map_of
     [((''LDAP'', ''server''), ''ldap://localhost:389''),
      ((''LDAP'', ''bind_dn''), ''cn=admin,dc=sch179,dc=local''),
      ((''LDAP'', ''bind_password''), ''pw''),
      ((''LDAP'', ''base_dn''), ''dc=sch179,dc=local''),
      ((''LDAP'', ''user_ou''), ''ou=people''),
      ((''LDAP'', ''group_ou''), ''ou=groups''),
      ((''KERBEROS'', ''realm''), ''SCH179.LOCAL''),
      ((''KERBEROS'', ''kadmin_principal''), ''admin/admin@SCH179.LOCAL''),
      ((''KERBEROS'', ''kadmin_password''), ''kpw''),
      ((''KERBEROS'', ''check_method''), ''kadmin''),
      ((''NFS'', ''home_base''), ''/home''),
      ((''NFS'', ''skel_dir''), ''/etc/skel''),
      ((''NFS'', ''home_permissions''), ''750''),
      ((''QUOTAS'', ''default_soft_limit''), ''100M''),
      ((''QUOTAS'', ''default_hard_limit''), ''200M''),
      ((''QUOTAS'', ''default_inode_soft_limit''), ''1000''),
      ((''QUOTAS'', ''default_inode_hard_limit''), ''2000''),
      ((''QUOTAS'', ''filesystem_type''), ''xfs'')]"

text \<open>Every tool exits with code zero and prints nothing.\<close>

definition ok_proc :: "string list list \<Rightarrow> string list \<Rightarrow> completed option" where
  "ok_proc history cmd = Some \<lparr>returncode = 0, stdout = [], stderr = []\<rparr>"

definition sample_world :: world where
  "sample_world =
     \<lparr>config = sample_config, euid = 0, getpass = None,
      ldap_bind = (\<lambda>server bind_dn password. True), ldap_dir = Map.empty,
      proc = ok_proc, proc_calls = [],
      home_fs = (\<lambda>history request. FsDone), fs_calls = [],
      files = (\<lambda>name. NoSuchFile), logs = []\<rparr>"

text \<open>The directory server cannot be reached.\<close>

definition ldap_down_world :: world where
  "ldap_down_world = sample_world\<lparr>ldap_bind := (\<lambda>server bind_dn password. False)\<rparr>"

text \<open>The directory holds the entry of \<open>alice\<close> already.\<close>

definition provisioned_world :: world where
  "provisioned_world =
     sample_world\<lparr>ldap_dir :=
       [''uid=alice,ou=people,dc=sch179,dc=local'' \<mapsto>
          user_attrs 1001 ''alice'' ''Ivanova'' ''Alice'' ''/home'']\<rparr>"

text \<open>The tool invocations made since \<open>before\<close>, and those of them that start a quota tool.\<close>

definition called_since :: "world \<Rightarrow> world \<Rightarrow> string list list" where
  "called_since before after = drop (length (proc_calls before)) (proc_calls after)"

definition is_quota_tool :: "string list \<Rightarrow> bool" where
  "is_quota_tool cmd =
     (case cmd of [] \<Rightarrow> False | tool # args \<Rightarrow> tool \<in> set [''xfs_quota'', ''quota''])"

definition quota_tool_calls :: "string list list \<Rightarrow> string list list" where
  "quota_tool_calls calls = filter is_quota_tool calls"

text \<open>The text that a quota table holds for a user under a field name.\<close>

definition field :: "quota_table \<Rightarrow> string \<Rightarrow> string \<Rightarrow> string option" where
  "field q u key = (case map_of q u of None \<Rightarrow> None | Some r \<Rightarrow> map_of r key)"

text \<open>
  The invocation of the realm tool that the configuration determines for a principal
  (lines 412 to 429): \<open>kadmin.local\<close> when that is the configured method and the
  effective user is root, else \<open>kadmin\<close> with the administrator's principal and
  password; \<open>None\<close> when reading these raises.
\<close>

definition getprinc_command :: "world \<Rightarrow> string \<Rightarrow> string list option" where
  "getprinc_command w name =
     (if config_get_fallback w ''KERBEROS'' ''check_method'' ''kadmin'' (\<lambda>v. v) = ''kadmin.local''
         \<and> euid w = 0
      then Some [''kadmin.local'', ''-q'', ''getprinc '' @ name]
      else
        (case config_get w ''KERBEROS'' ''kadmin_principal'' of
           None \<Rightarrow> None
         | Some kadmin_principal \<Rightarrow>
             (case get_kadmin_password w of
                None \<Rightarrow> None
              | Some kadmin_password \<Rightarrow>
                  Some [''kadmin'', ''-p'', kadmin_principal, ''-w'', kadmin_password,
                        ''-q'', ''getprinc '' @ name])))"

text \<open>The realm knows \<open>alice\<close> only; the tool exits with code zero in both cases.\<close>

definition kdc_proc :: "string list list \<Rightarrow> string list \<Rightarrow> completed option" where
  "kdc_proc history cmd =
     (if cmd \<noteq> [] \<and> last cmd = ''getprinc alice@SCH179.LOCAL''
      then Some \<lparr>returncode = 0,
                  stdout = ''Principal: alice@SCH179.LOCAL'' @ [CHR 0x0A] @
                           ''Expiration date: [never]'',
                  stderr = []\<rparr>
      else Some \<lparr>returncode = 0, stdout = [],
                  stderr = ''get_principal: Principal does not exist''\<rparr>)"

definition kdc_world :: world where
  "kdc_world = sample_world\<lparr>proc := kdc_proc\<rparr>"

text \<open>Every tool prints a report in the layout of \<open>xfs_quota\<close>, with three users.\<close>

definition xfs_report :: string where
  "xfs_report = ''User quota on /home (/dev/sdb1)'' @ [CHR 0x0A] @
                ''                        Blocks'' @ [CHR 0x0A] @
                ''User ID      Used   Soft   Hard Warn/Grace'' @ [CHR 0x0A] @
                ''---------- ---------------------------------'' @ [CHR 0x0A] @
                ''root            0      0      0  00 [------]'' @ [CHR 0x0A] @
                ''alice         50M   100M   200M  00 [------]'' @ [CHR 0x0A] @
                ''bob           10M   100M   200M  00 [------]'' @ [CHR 0x0A] @
                ''carol          1M   100M   200M  00 [------]'' @ [CHR 0x0A]"

definition xfs_proc :: "string list list \<Rightarrow> string list \<Rightarrow> completed option" where
  "xfs_proc history cmd = Some \<lparr>returncode = 0, stdout = xfs_report, stderr = []\<rparr>"

definition xfs_world :: world where
  "xfs_world = sample_world\<lparr>proc := xfs_proc\<rparr>"

text \<open>
  When the two parsers of the \<open>xfs\<close> reports read the same rows for a user: the name is
  not one of the skipped first fields, both reports can be fetched, and every report line
  with at least five fields that starts with the name has the name as its first field.
\<close>

definition xfs_rows_exact :: "string \<Rightarrow> completed \<Rightarrow> bool" where
  "xfs_rows_exact u result =
     list_all (\<lambda>line. 5 \<le> length (split_ws line) \<and> startswith (strip line) u
                      \<longrightarrow> split_ws line ! 0 = u)
       (report_lines (stdout result))"

definition xfs_same_rows :: "world \<Rightarrow> string \<Rightarrow> string \<Rightarrow> bool" where
  "xfs_same_rows w1 home_base u =
     (u \<notin> set xfs_skipped \<and>
      (case run w1 (cmd_blocks home_base) of
         (None, w2) \<Rightarrow> False
       | (Some result_blocks, w2) \<Rightarrow>
           (case run w2 (cmd_inodes home_base) of
              (None, w3) \<Rightarrow> False
            | (Some result_inodes, w3) \<Rightarrow>
                xfs_rows_exact u result_blocks \<and> xfs_rows_exact u result_inodes)))"

text \<open>
  When the two parsers of the other reports read the same row for a user: both tools exit
  with code zero, the third line of \<open>quota -u\<close> is a row of at least six fields whose
  first field is the name, and it is the last such row of \<open>quota -a\<close>.
\<close>

definition is_row6 :: "string \<Rightarrow> string \<Rightarrow> bool" where
  "is_row6 u line = (6 \<le> length (split_ws line) \<and> split_ws line ! 0 = u)"

definition last_row :: "string \<Rightarrow> string list \<Rightarrow> string option" where
  "last_row u lines = (case filter (is_row6 u) lines of [] \<Rightarrow> None | r # rs \<Rightarrow> Some (last (r # rs)))"

definition generic_same_row :: "world \<Rightarrow> string \<Rightarrow> bool" where
  "generic_same_row w1 u =
     (u \<notin> set generic_skipped \<and>
      (case fst (run w1 [''quota'', ''-a'']) of
         None \<Rightarrow> False
       | Some batch \<Rightarrow>
           (case fst (run w1 [''quota'', ''-u'', u]) of
              None \<Rightarrow> False
            | Some single \<Rightarrow>
                returncode batch = 0 \<and> returncode single = 0 \<and>
                3 \<le> length (report_lines (stdout single)) \<and>
                is_row6 u (report_lines (stdout single) ! 2) \<and>
                last_row u (report_lines (stdout batch)) = Some (report_lines (stdout single) ! 2))))"

text \<open>The reports of the example of the specification, section 8.\<close>

definition blocks_text :: string where
  "blocks_text = ''User ID      Used   Soft   Hard Warn/Grace'' @ [CHR 0x0A] @
                 ''---------- ---------------------------------'' @ [CHR 0x0A] @
                 ''root 0 0 0 0'' @ [CHR 0x0A] @
                 ''alice 50M 100M 200M 1'' @ [CHR 0x0A]"

definition inodes_text :: string where
  "inodes_text = ''User ID      Used   Soft   Hard Warn/Grace'' @ [CHR 0x0A] @
                 ''---------- ---------------------------------'' @ [CHR 0x0A] @
                 ''root 3 0 0 0'' @ [CHR 0x0A] @
                 ''alice 500 1000 2000 0'' @ [CHR 0x0A]"

definition two_reports ::
  "string \<Rightarrow> string \<Rightarrow> string list list \<Rightarrow> string list \<Rightarrow> completed option" where
  "two_reports blocks inodes history cmd =
     (if cmd = cmd_inodes ''/home''
      then Some \<lparr>returncode = 0, stdout = inodes, stderr = []\<rparr>
      else Some \<lparr>returncode = 0, stdout = blocks, stderr = []\<rparr>)"

definition example_world :: world where
  "example_world = sample_world\<lparr>proc := two_reports blocks_text inodes_text\<rparr>"

text \<open>The same reports with a second user, whose name starts with \<open>alice\<close>.\<close>

definition prefix_world :: world where
  "prefix_world =
     sample_world\<lparr>proc := two_reports (blocks_text @ ''alice2 7M 100M 200M 1'' @ [CHR 0x0A])
                                          (inodes_text @ ''alice2 70 1000 2000 0'' @ [CHR 0x0A])\<rparr>"

text \<open>A file system that is not \<open>xfs\<close>, and reports with the same row for \<open>alice\<close>.\<close>

definition generic_proc :: "string list list \<Rightarrow> string list \<Rightarrow> completed option" where
  "generic_proc history cmd =
     (if cmd = [''quota'', ''-a'']
      then Some \<lparr>returncode = 0,
                  stdout = ''bob 10 100 200 0 3 0 0'' @ [CHR 0x0A] @
                           ''alice 24 100 200 0 7 0 0'' @ [CHR 0x0A],
                  stderr = []\<rparr>
      else Some \<lparr>returncode = 0,
                  stdout = ''Disk quotas for user alice (uid 1001):'' @ [CHR 0x0A] @
                           ''Filesystem blocks quota limit grace files quota limit grace'' @
                           [CHR 0x0A] @
                           ''alice 24 100 200 0 7 0 0'' @ [CHR 0x0A],
                  stderr = []\<rparr>)"

definition generic_world :: world where
  "generic_world =
     sample_world\<lparr>config := sample_config((''QUOTAS'', ''filesystem_type'') \<mapsto> ''ext4''),
                  proc := generic_proc\<rparr>"

text \<open>
  A line of the manifest: its fields, whether \<open>process_user_file\<close> passes over it (blank
  or comment), and whether it hands it to \<open>add_user\<close> (six fields, the first an integer).
\<close>

definition fields :: "string \<Rightarrow> string list" where
  "fields raw = split_ws (strip raw)"

definition ignored :: "string \<Rightarrow> bool" where
  "ignored raw = (strip raw = [] \<or> startswith (strip raw) ''#'')"

definition accepted :: "string \<Rightarrow> bool" where
  "accepted raw =
     (\<not> ignored raw \<and> length (fields raw) = 6 \<and> py_int 10 (fields raw ! 0) \<noteq> None)"

text \<open>The calls of \<open>add_user\<close> that a piece of log shows: each call writes its first record
  (line 330) once.\<close>

definition started :: "(level \<times> msg) list \<Rightarrow> string list" where
  "started l =
     List.map_filter (\<lambda>r. case snd r of AddUserStart u \<Rightarrow> Some u | _ \<Rightarrow> None) l"

text \<open>A manifest with a comment, a blank line, two malformed lines and \<open>alice\<close> twice.\<close>

definition manifest :: "string list" where
  "manifest =
     [''# uid groups username surname firstname password'' @ [CHR 0x0A],
      [CHR 0x0A],
      ''1001 students alice Ivanova Alice secret123'' @ [CHR 0x0A],
      ''1002 students bob Petrov'' @ [CHR 0x0A],
      ''x1003 students carol Sidorova Carol pw3'' @ [CHR 0x0A],
      ''1001 students alice Ivanova Alice secret123'' @ [CHR 0x0A]]"

definition manifest_world :: world where
  "manifest_world =
     sample_world\<lparr>files := (\<lambda>name. if name = ''users.txt'' then Lines manifest
                                        else NoSuchFile)\<rparr>"

text \<open>
  Devices for the proofs about the log. \<open>block s w w'\<close>: from \<open>w\<close> to \<open>w'\<close> the log has
  grown by records of step \<open>s\<close> only; \<open>block1\<close>: and by at least one. \<open>body_ok\<close>: a method
  body that returns has written a record, one that raises has written records of its
  step only. \<open>stage\<close>: the records written are those of step \<open>s\<close>, and there are some
  exactly when the step was asked for. \<open>filled\<close>: the record of a user in a quota table
  has a \<open>blocks\<close> or an \<open>inodes\<close> field, and no empty text.
\<close>

definition block :: "string \<Rightarrow> world \<Rightarrow> world \<Rightarrow> bool" where
  "block s w w' = (\<exists>L. logs w' = logs w @ L \<and> (\<forall>r \<in> set L. step_of (snd r) = Some s))"

definition block1 :: "string \<Rightarrow> world \<Rightarrow> world \<Rightarrow> bool" where
  "block1 s w w' =
     (\<exists>L. logs w' = logs w @ L \<and> L \<noteq> [] \<and> (\<forall>r \<in> set L. step_of (snd r) = Some s))"

definition body_ok :: "string \<Rightarrow> world \<Rightarrow> (exn + bool) \<times> world \<Rightarrow> bool" where
  "body_ok s w r = (case r of (Inr b, w') \<Rightarrow> block1 s w w' | (Inl e, w') \<Rightarrow> block s w w')"

definition filled :: "quota_table \<Rightarrow> string \<Rightarrow> bool" where
  "filled q u = (\<forall>r. map_of q u = Some r \<longrightarrow>
       (map_of r ''blocks'' \<noteq> None \<or> map_of r ''inodes'' \<noteq> None) \<and>
       (\<forall>k s. map_of r k = Some s \<longrightarrow> s \<noteq> []))"

definition stage :: "string \<Rightarrow> bool \<Rightarrow> world \<Rightarrow> world \<Rightarrow> bool" where
  "stage s req w w' =
     (\<exists>L n. logs w' = logs w @ L \<and>
        List.map_filter (\<lambda>r. step_of (snd r)) L = replicate n s \<and> (0 < n \<longleftrightarrow> req))"

text \<open>
  Devices for the proofs about the manifest. \<open>grown\<close>: the log has grown by records that
  are no first record of \<open>add_user\<close>. \<open>eqv\<close>: two environments differ in their logs at
  most. \<open>insensitive\<close>: a method returns the same, and leaves environments that differ in
  their logs at most, whatever the log was before.
\<close>

definition grown :: "world \<Rightarrow> world \<Rightarrow> bool" where
  "grown w w' = (\<exists>L. logs w' = logs w @ L \<and> started L = [])"

definition eqv :: "world \<Rightarrow> world \<Rightarrow> bool" where
  "eqv w w' = (w\<lparr>logs := []\<rparr> = w'\<lparr>logs := []\<rparr>)"

definition insensitive :: "(world \<Rightarrow> 'a \<times> world) \<Rightarrow> bool" where
  "insensitive f =
     (\<forall>w L. fst (f (w\<lparr>logs := L\<rparr>)) = fst (f w) \<and>
            eqv (snd (f (w\<lparr>logs := L\<rparr>))) (snd (f w)))"

section \<open>The log of the steps\<close>

lemmas eval_defs =
  add_user_results_def add_user_def add_user_to_ldap_def add_user_to_ldap_body_def run_step_def
  add_user_to_kerberos_def add_user_to_kerberos_body_def create_home_directory_def
  create_home_directory_body_def set_user_quota_def set_user_quota_body_def
  resolve_filesystem_type_def get_filesystem_type_def get_ldap_connection_def config_get_def
  config_get_fallback_def run_def say_def ldap_search_def ldap_add_def ldap_modify_add_def
  get_kadmin_password_def sample_world_def sample_config_def ok_proc_def ldap_down_world_def
  default_steps_def requested_def Let_def py_int_def parse_unsigned_def strip_def is_space_def
  is_digit_def digit_val_def lower_def lower_char_def add_to_group_def split_ws_def
  step_trace_def logged_since_def

lemma say_logs: "logs (say l m w) = logs w @ [(l, m)]"
  by (simp add: say_def)

lemma ldap_add_logs: "logs (ldap_add w dn a) = logs w"
  by (simp add: ldap_add_def)

lemma ldap_modify_add_logs: "logs (ldap_modify_add w dn a v) = logs w"
  by (simp add: ldap_modify_add_def split: option.splits)

lemma block_refl: "block s w w"
  by (simp add: block_def)

lemma block_say: "step_of m = Some s \<Longrightarrow> block s w w' \<Longrightarrow> block s w (say l m w')"
  by (auto simp: block_def say_logs)

lemma block1_say: "step_of m = Some s \<Longrightarrow> block s w w' \<Longrightarrow> block1 s w (say l m w')"
  by (auto simp: block_def block1_def say_logs)

lemma block_logs_eq: "logs w'' = logs w' \<Longrightarrow> block s w w' \<Longrightarrow> block s w w''"
  by (auto simp: block_def)

lemma block_trans: "block s w w' \<Longrightarrow> block s w' w'' \<Longrightarrow> block s w w''"
  by (auto simp: block_def)

lemma block1_block: "block1 s w w' \<Longrightarrow> block s w w'"
  by (auto simp: block_def block1_def)

lemma block1_trans: "block1 s w w' \<Longrightarrow> block s w' w'' \<Longrightarrow> block1 s w w''"
  by (auto simp: block_def block1_def)

lemma body_ok_Inl: "block s w w' \<Longrightarrow> body_ok s w (Inl e, w')"
  by (simp add: body_ok_def)

lemma body_ok_Inr: "block1 s w w' \<Longrightarrow> body_ok s w (Inr b, w')"
  by (simp add: body_ok_def)

lemma add_to_group_block: "block ''ldap'' w (add_to_group u gou bdn pg g w)"
  by (auto simp: add_to_group_def Let_def
      intro!: block_say block_refl block_logs_eq[OF ldap_modify_add_logs])

lemma fold_add_to_group_block: "block ''ldap'' w (fold (add_to_group u gou bdn pg) gs w)"
proof (induction gs arbitrary: w)
  case Nil
  show ?case by (simp add: block_refl)
next
  case (Cons g gs)
  show ?case using block_trans[OF add_to_group_block Cons] by simp
qed

lemma ldap_body_ok: "body_ok ''ldap'' w (add_user_to_ldap_body w uid u s f gs)"
proof -
  have added: "\<And>w1 gou bdn pg dn attrs. block ''ldap'' w w1 \<Longrightarrow>
     block1 ''ldap'' w
       (fold (add_to_group u gou bdn pg) gs (say Info (LdapUserAdded u) (ldap_add w1 dn attrs)))"
    by (rule block1_trans[OF _ fold_add_to_group_block], rule block1_say, simp,
        erule block_logs_eq[OF ldap_add_logs])
  have group: "\<And>dn attrs g. block ''ldap'' w (say Info (LdapGroupCreated g) (ldap_add w dn attrs))"
    by (rule block_say, simp, rule block_logs_eq[OF ldap_add_logs], rule block_refl)
  show ?thesis
    by (auto simp: add_user_to_ldap_body_def Let_def block_refl added group
        intro!: block1_say body_ok_Inl body_ok_Inr split: sum.splits option.splits)
qed

lemma wrapper_block1:
  assumes "body_ok s w r" "step_of m = Some s"
  shows "block1 s w
           (snd (case r of (Inr ok, w') \<Rightarrow> (ok, w') | (Inl e, w') \<Rightarrow> (False, say Error m w')))"
  using assms by (auto simp: body_ok_def intro: block1_say split: prod.splits sum.splits)

lemma ldap_block1: "block1 ''ldap'' w (snd (add_user_to_ldap w uid u s f gs))"
  unfolding add_user_to_ldap_def by (rule wrapper_block1[OF ldap_body_ok]) simp

lemma kerberos_body_ok: "body_ok ''kerberos'' w (add_user_to_kerberos_body w u p)"
  by (auto simp: add_user_to_kerberos_body_def Let_def run_def body_ok_def block_def block1_def
        say_def split: option.splits)

lemma kerberos_block1: "block1 ''kerberos'' w (snd (add_user_to_kerberos w u p))"
  unfolding add_user_to_kerberos_def by (rule wrapper_block1[OF kerberos_body_ok]) simp

lemma home_body_ok: "body_ok ''home'' w (create_home_directory_body w u)"
  by (auto simp: create_home_directory_body_def Let_def body_ok_def block_def block1_def say_def
        split: option.splits fs_outcome.splits)

lemma home_block1: "block1 ''home'' w (snd (create_home_directory w u))"
  unfolding create_home_directory_def by (rule wrapper_block1[OF home_body_ok]) simp

lemma get_filesystem_type_logs: "logs (snd (get_filesystem_type w p)) = logs w"
  by (simp add: get_filesystem_type_def run_def Let_def split: option.splits)

lemma resolve_logs: "logs (snd (resolve_filesystem_type w p)) = logs w"
  by (simp add: resolve_filesystem_type_def config_get_fallback_def get_filesystem_type_logs
      split: option.splits)

lemma quota_body_ok: "body_ok ''quota'' w (set_user_quota_body w u)"
  by (auto simp: set_user_quota_body_def Let_def run_def split_def body_ok_def block_def
        block1_def say_def resolve_logs split: option.splits)

lemma quota_block1: "block1 ''quota'' w (snd (set_user_quota w u))"
  unfolding set_user_quota_def by (rule wrapper_block1[OF quota_body_ok]) simp

lemma map_filter_all:
  "(\<forall>r \<in> set L. f r = Some s) \<Longrightarrow> List.map_filter f L = replicate (length L) s"
  by (induction L) auto

lemma map_filter_app: "List.map_filter f (xs @ ys) = List.map_filter f xs @ List.map_filter f ys"
  by (simp add: List.map_filter_def)

lemma stage_block1: "block1 s w w' \<Longrightarrow> stage s True w w'"
  unfolding block1_def stage_def by (metis length_greater_0_conv map_filter_all)

lemma stage_skip: "stage s False w w"
  unfolding stage_def by (rule exI[of _ "[]"], rule exI[of _ 0]) simp

lemma remdups_adj_replicate_append:
  "x \<notin> set ys \<Longrightarrow>
   remdups_adj (replicate n x @ ys) = (if n = 0 then [] else [x]) @ remdups_adj ys"
proof (induction n)
  case 0
  show ?case by simp
next
  case (Suc n)
  then show ?case by (cases n; cases ys) auto
qed

lemma stages_trace:
  assumes "logs w0 = logs w @ [(Info, AddUserStart u)]"
    and "stage ''ldap'' r1 w0 w1" "stage ''kerberos'' r2 w1 w2"
    and "stage ''home'' r3 w2 w3" "stage ''quota'' r4 w3 w4"
  shows "step_trace (logged_since w w4) =
     (if r1 then [''ldap''] else []) @ (if r2 then [''kerberos''] else []) @
     (if r3 then [''home''] else []) @ (if r4 then [''quota''] else [])"
proof -
  let ?T = "List.map_filter (\<lambda>r. step_of (snd r))"
  from assms(2) obtain L1 n1 where 1:
    "logs w1 = logs w0 @ L1" "?T L1 = replicate n1 ''ldap''" "0 < n1 \<longleftrightarrow> r1"
    unfolding stage_def by blast
  from assms(3) obtain L2 n2 where 2:
    "logs w2 = logs w1 @ L2" "?T L2 = replicate n2 ''kerberos''" "0 < n2 \<longleftrightarrow> r2"
    unfolding stage_def by blast
  from assms(4) obtain L3 n3 where 3:
    "logs w3 = logs w2 @ L3" "?T L3 = replicate n3 ''home''" "0 < n3 \<longleftrightarrow> r3"
    unfolding stage_def by blast
  from assms(5) obtain L4 n4 where 4:
    "logs w4 = logs w3 @ L4" "?T L4 = replicate n4 ''quota''" "0 < n4 \<longleftrightarrow> r4"
    unfolding stage_def by blast
  have "logged_since w w4 = [(Info, AddUserStart u)] @ L1 @ L2 @ L3 @ L4"
    by (simp add: logged_since_def assms(1) 1 2 3 4)
  then have "?T (logged_since w w4) =
      replicate n1 ''ldap'' @ replicate n2 ''kerberos'' @
      replicate n3 ''home'' @ replicate n4 ''quota''"
    by (simp add: map_filter_app 1 2 3 4)
  then have "step_trace (logged_since w w4) =
     (if n1 = 0 then [] else [''ldap'']) @ (if n2 = 0 then [] else [''kerberos'']) @
     (if n3 = 0 then [] else [''home'']) @ (if n4 = 0 then [] else [''quota''])"
    unfolding step_trace_def by (simp add: remdups_adj_replicate_append remdups_adj_replicate)
  with 1(3) 2(3) 3(3) 4(3) show ?thesis by auto
qed

lemma run_step_stage:
  assumes "\<And>w. block1 name w (snd (method w))" "step_of failed = Some name"
  shows "stage name (name \<in> set steps) (snd state)
           (snd (run_step name failed steps method state))"
proof (cases "name \<in> set steps")
  case True
  have "block1 name (snd state) (snd (run_step name failed steps method state))"
    using True assms(2) assms(1)[of "snd state"]
    by (auto simp: run_step_def split_def intro: block1_say block1_block)
  then show ?thesis using True stage_block1 by simp
next
  case False
  then show ?thesis by (simp add: run_step_def split_def stage_skip)
qed

lemma run_step_keys:
  "map fst (fst (run_step name failed steps method state)) =
     (if name \<in> set steps \<and> name \<notin> fst ` set (fst state)
      then map fst (fst state) @ [name] else map fst (fst state))"
  by (simp add: run_step_def split_def update_keys)

lemma run_step_keys_filter:
  assumes "map fst (fst state) = filter (\<lambda>x. x \<in> set steps) done" "name \<notin> set done"
  shows "map fst (fst (run_step name failed steps method state)) =
           filter (\<lambda>x. x \<in> set steps) (done @ [name])"
proof -
  have "set (map fst (fst state)) \<subseteq> set done" unfolding assms(1) by auto
  then have "name \<notin> fst ` set (fst state)" using assms(2) by auto
  then show ?thesis by (simp add: run_step_keys assms(1))
qed

lemma add_user_results_trace:
  "step_trace (logged_since w (snd (add_user_results w uid g u s f p steps))) =
     filter (\<lambda>x. x \<in> set (requested steps)) default_steps"
proof -
  define st where "st = requested steps"
  define s0 :: "results \<times> world" where "s0 = ([], say Info (AddUserStart u) w)"
  define s1 where "s1 = run_step ''ldap'' LdapStepFailed st
     (\<lambda>w. add_user_to_ldap w uid u s f (map strip (split_on CHR '','' g))) s0"
  define s2 where
    "s2 = run_step ''kerberos'' KerberosStepFailed st (\<lambda>w. add_user_to_kerberos w u p) s1"
  define s3 where
    "s3 = run_step ''home'' HomeStepFailed st (\<lambda>w. create_home_directory w u) s2"
  define s4 where
    "s4 = run_step ''quota'' QuotaStepFailed st (\<lambda>w. set_user_quota w u) s3"
  have e: "add_user_results w uid g u s f p steps = s4"
    unfolding add_user_results_def Let_def s4_def s3_def s2_def s1_def s0_def st_def
      requested_def ..
  have 0: "logs (snd s0) = logs w @ [(Info, AddUserStart u)]"
    by (simp add: s0_def say_logs)
  have 1: "stage ''ldap'' (''ldap'' \<in> set st) (snd s0) (snd s1)"
    unfolding s1_def by (rule run_step_stage) (simp_all add: ldap_block1)
  have 2: "stage ''kerberos'' (''kerberos'' \<in> set st) (snd s1) (snd s2)"
    unfolding s2_def by (rule run_step_stage) (simp_all add: kerberos_block1)
  have 3: "stage ''home'' (''home'' \<in> set st) (snd s2) (snd s3)"
    unfolding s3_def by (rule run_step_stage) (simp_all add: home_block1)
  have 4: "stage ''quota'' (''quota'' \<in> set st) (snd s3) (snd s4)"
    unfolding s4_def by (rule run_step_stage) (simp_all add: quota_block1)
  show ?thesis
    unfolding e stages_trace[OF 0 1 2 3 4] by (simp add: default_steps_def st_def)
qed

lemma add_user_results_keys:
  "map fst (fst (add_user_results w uid g u s f p steps)) =
     filter (\<lambda>x. x \<in> set (requested steps)) default_steps"
proof -
  define st where "st = requested steps"
  define s0 :: "results \<times> world" where "s0 = ([], say Info (AddUserStart u) w)"
  define s1 where "s1 = run_step ''ldap'' LdapStepFailed st
     (\<lambda>w. add_user_to_ldap w uid u s f (map strip (split_on CHR '','' g))) s0"
  define s2 where
    "s2 = run_step ''kerberos'' KerberosStepFailed st (\<lambda>w. add_user_to_kerberos w u p) s1"
  define s3 where
    "s3 = run_step ''home'' HomeStepFailed st (\<lambda>w. create_home_directory w u) s2"
  define s4 where
    "s4 = run_step ''quota'' QuotaStepFailed st (\<lambda>w. set_user_quota w u) s3"
  have e: "add_user_results w uid g u s f p steps = s4"
    unfolding add_user_results_def Let_def s4_def s3_def s2_def s1_def s0_def st_def
      requested_def ..
  have 0: "map fst (fst s0) = filter (\<lambda>x. x \<in> set st) []"
    by (simp add: s0_def)
  have 1: "map fst (fst s1) = filter (\<lambda>x. x \<in> set st) ([] @ [''ldap''])"
    unfolding s1_def by (rule run_step_keys_filter[OF 0]) simp
  have 2: "map fst (fst s2) = filter (\<lambda>x. x \<in> set st) (([] @ [''ldap'']) @ [''kerberos''])"
    unfolding s2_def by (rule run_step_keys_filter[OF 1]) simp
  have 3: "map fst (fst s3) =
      filter (\<lambda>x. x \<in> set st) ((([] @ [''ldap'']) @ [''kerberos'']) @ [''home''])"
    unfolding s3_def by (rule run_step_keys_filter[OF 2]) simp
  have 4: "map fst (fst s4) =
      filter (\<lambda>x. x \<in> set st) (((([] @ [''ldap'']) @ [''kerberos'']) @ [''home'']) @ [''quota''])"
    unfolding s4_def by (rule run_step_keys_filter[OF 3]) simp
  show ?thesis unfolding e 4 by (simp add: default_steps_def st_def)
qed

lemma add_user_overall:
  "fst (add_user w uid g u s f p steps) \<longleftrightarrow>
     False \<notin> snd ` set (fst (add_user_results w uid g u s f p steps))"
  by (auto simp: add_user_def Let_def split_def filter_empty_conv)


lemma run_step_cong_steps:
  "(name \<in> set steps \<longleftrightarrow> name \<in> set steps') \<Longrightarrow>
   run_step name failed steps method state = run_step name failed steps' method state"
  by (simp add: run_step_def)

lemma add_user_results_normal:
  "add_user_results w uid g u s f p (Some steps) =
   add_user_results w uid g u s f p (Some (filter (\<lambda>x. x \<in> set steps) default_steps))"
  unfolding add_user_results_def Let_def option.case
  by (simp add: default_steps_def
      run_step_cong_steps[of "''ldap''" steps
        "filter (\<lambda>x. x \<in> set steps) [''ldap'', ''kerberos'', ''home'', ''quota'']"]
      run_step_cong_steps[of "''kerberos''" steps
        "filter (\<lambda>x. x \<in> set steps) [''ldap'', ''kerberos'', ''home'', ''quota'']"]
      run_step_cong_steps[of "''home''" steps
        "filter (\<lambda>x. x \<in> set steps) [''ldap'', ''kerberos'', ''home'', ''quota'']"]
      run_step_cong_steps[of "''quota''" steps
        "filter (\<lambda>x. x \<in> set steps) [''ldap'', ''kerberos'', ''home'', ''quota'']"])

lemma run_step_other:
  "name \<noteq> k \<Longrightarrow>
   map_of (fst (run_step name failed steps method state)) k = map_of (fst state) k"
  by (simp add: run_step_def split_def update_conv')

lemma existing_entry:
  assumes "get_ldap_connection w = Inr ()"
      and "config_get w ''LDAP'' ''user_ou'' = Some user_ou"
      and "config_get w ''LDAP'' ''base_dn'' = Some base_dn"
      and "ldap_dir w (''uid='' @ u @ '','' @ user_ou @ '','' @ base_dn) \<noteq> None"
  shows "add_user_to_ldap w uid u s f gs = (False, say Warning (LdapUserExists u) w)"
  using assms by (simp add: add_user_to_ldap_def add_user_to_ldap_body_def ldap_search_def)

lemma say_get_ldap_connection: "get_ldap_connection (say l m w) = get_ldap_connection w"
  by (simp add: say_def get_ldap_connection_def config_get_def split: option.splits)

lemma say_config_get: "config_get (say l m w) a b = config_get w a b"
  by (simp add: say_def config_get_def)

lemma say_ldap_dir: "ldap_dir (say l m w) = ldap_dir w"
  by (simp add: say_def)

section \<open>Splitting lines, reading reports\<close>

lemma words_acc_nonempty:
  "acc \<noteq> [] \<Longrightarrow> \<exists>ts. words_acc acc s = (rev acc @ takeWhile (\<lambda>c. \<not> is_space c) s) # ts"
proof (induction s arbitrary: acc)
  case Nil
  then show ?case by simp
next
  case (Cons c cs)
  show ?case
  proof (cases "is_space c")
    case True
    then show ?thesis using Cons.prems by simp
  next
    case False
    then show ?thesis using Cons.IH[of "c # acc"] by simp
  qed
qed

lemma words_acc_dropWhile: "words_acc [] s = words_acc [] (dropWhile is_space s)"
  by (induction s) auto

lemma split_ws_first:
  assumes "split_ws s = t # ts"
  shows "t = takeWhile (\<lambda>c. \<not> is_space c) (dropWhile is_space s) \<and> t \<noteq> []"
proof (cases "dropWhile is_space s")
  case Nil
  have "words_acc [] s = words_acc [] []" using words_acc_dropWhile[of s] unfolding Nil .
  then have "words_acc [] s = []" by simp
  then show ?thesis using assms by (simp add: split_ws_def)
next
  case (Cons c cs)
  then have nc: "\<not> is_space c" by (metis hd_dropWhile list.sel(1) list.distinct(1))
  have "words_acc [] s = words_acc [c] cs"
    using words_acc_dropWhile[of s] Cons nc by simp
  moreover obtain us where "words_acc [c] cs = (rev [c] @ takeWhile (\<lambda>c. \<not> is_space c) cs) # us"
    using words_acc_nonempty[of "[c]" cs] by auto
  ultimately have "t = c # takeWhile (\<lambda>c. \<not> is_space c) cs"
    using assms by (simp add: split_ws_def)
  then show ?thesis using Cons nc by simp
qed

lemma strip_keeps_prefix:
  assumes "t \<noteq> []" "\<forall>c \<in> set t. \<not> is_space c"
  shows "prefix t (rev (dropWhile is_space (rev (t @ r))))"
proof -
  have "dropWhile is_space (rev t) = rev t"
    using assms by (cases "rev t") auto
  then have "dropWhile is_space (rev r @ rev t) =
      (if \<forall>x \<in> set (rev r). is_space x then rev t else dropWhile is_space (rev r) @ rev t)"
    by (simp add: dropWhile_append)
  then show ?thesis by (auto simp: prefix_def)
qed

lemma first_token_prefix:
  assumes "split_ws s = t # ts"
  shows "startswith (strip s) t"
proof -
  let ?x = "dropWhile is_space s"
  have t: "t = takeWhile (\<lambda>c. \<not> is_space c) ?x" "t \<noteq> []"
    using split_ws_first[OF assms] by blast+
  have "\<forall>c \<in> set t. \<not> is_space c" unfolding t(1) by (auto dest: set_takeWhileD)
  moreover have "?x = t @ dropWhile (\<lambda>c. \<not> is_space c) ?x" unfolding t(1) by simp
  ultimately have "prefix t (rev (dropWhile is_space (rev ?x)))"
    using strip_keeps_prefix[OF t(2), of "dropWhile (\<lambda>c. \<not> is_space c) ?x"] by simp
  then show ?thesis by (simp add: startswith_def strip_def)
qed

lemma first_token_prefix_nth:
  "split_ws s \<noteq> [] \<Longrightarrow> startswith (strip s) (split_ws s ! 0)"
  using first_token_prefix[of s] by (cases "split_ws s") auto


lemma parse_xfs_line_absent:
  "\<not> (length (split_ws line) \<ge> 5 \<and> split_ws line ! 0 = u) \<Longrightarrow>
   map_of (parse_xfs_line key line q) u = map_of q u"
  by (auto simp: parse_xfs_line_def Let_def update_conv')

lemma fold_parse_xfs_absent:
  "\<forall>line \<in> set lines. \<not> (length (split_ws line) \<ge> 5 \<and> split_ws line ! 0 = u) \<Longrightarrow>
   map_of (fold (parse_xfs_line key) lines q) u = map_of q u"
  by (induction lines arbitrary: q) (simp_all add: parse_xfs_line_absent)

lemma parse_generic_line_absent:
  "\<not> (length (split_ws line) \<ge> 6 \<and> split_ws line ! 0 = u) \<Longrightarrow>
   map_of (parse_generic_line line q) u = map_of q u"
  by (auto simp: parse_generic_line_def Let_def update_conv')

lemma fold_parse_generic_absent:
  "\<forall>line \<in> set lines. \<not> (length (split_ws line) \<ge> 6 \<and> split_ws line ! 0 = u) \<Longrightarrow>
   map_of (fold parse_generic_line lines q) u = map_of q u"
  by (induction lines arbitrary: q) (simp_all add: parse_generic_line_absent)

lemma map_of_add_quota_str:
  "map_of (add_quota_str q) u =
     map_option (\<lambda>record. AList.update ''quota_str''
        (''blocks: '' @ dict_get record ''blocks'' ''-'' @ ''; inodes: '' @
         dict_get record ''inodes'' ''-'') record) (map_of q u)"
  by (induction q) (auto simp: add_quota_str_def Let_def)

lemma not_startswith_no_row:
  assumes "\<not> startswith (strip line) u"
  shows "\<not> (length (split_ws line) \<ge> n \<and> 0 < n \<and> split_ws line ! 0 = u)"
proof
  assume a: "length (split_ws line) \<ge> n \<and> 0 < n \<and> split_ws line ! 0 = u"
  then have "split_ws line \<noteq> []" by auto
  from first_token_prefix_nth[OF this] a assms show False by simp
qed

lemma parse_xfs_line_sim:
  assumes "length (split_ws line) \<ge> 5 \<longrightarrow> startswith (strip line) u \<longrightarrow> split_ws line ! 0 = u"
      and "u \<notin> set xfs_skipped"
  shows "field (parse_xfs_line key line q) u key = scan_xfs_line u line (field q u key)"
proof (cases "length (split_ws line) \<ge> 5")
  case False
  then show ?thesis by (simp add: parse_xfs_line_def scan_xfs_line_def Let_def field_def)
next
  case True
  show ?thesis
  proof (cases "split_ws line ! 0 = u")
    case u: True
    have "split_ws line \<noteq> []" using True by auto
    then have "startswith (strip line) u" using first_token_prefix_nth u by auto
    then show ?thesis using True u assms(2)
      by (simp add: parse_xfs_line_def scan_xfs_line_def Let_def field_def update_conv')
  next
    case nu: False
    then have "\<not> startswith (strip line) u" using assms(1) True by auto
    then show ?thesis using nu
      by (simp add: parse_xfs_line_absent scan_xfs_line_def field_def)
  qed
qed

lemma fold_parse_xfs_sim:
  assumes "\<forall>line \<in> set lines. length (split_ws line) \<ge> 5 \<longrightarrow> startswith (strip line) u \<longrightarrow> split_ws line ! 0 = u"
      and "u \<notin> set xfs_skipped"
  shows "field (fold (parse_xfs_line key) lines q) u key = fold (scan_xfs_line u) lines (field q u key)"
  using assms(1)
proof (induction lines arbitrary: q)
  case Nil
  show ?case by simp
next
  case (Cons line lines)
  then show ?case using parse_xfs_line_sim[OF _ assms(2), of line key q] by simp
qed

lemma parse_xfs_line_other:
  "key' \<noteq> key \<Longrightarrow> field (parse_xfs_line key line q) u key' = field q u key'"
  by (auto simp: parse_xfs_line_def Let_def field_def update_conv' split: option.splits)

lemma fold_parse_xfs_other:
  "key' \<noteq> key \<Longrightarrow> field (fold (parse_xfs_line key) lines q) u key' = field q u key'"
  by (induction lines arbitrary: q) (simp_all add: parse_xfs_line_other)

lemma parse_xfs_line_filled:
  "key = ''blocks'' \<or> key = ''inodes'' \<Longrightarrow> filled q u \<Longrightarrow> filled (parse_xfs_line key line q) u"
  by (auto simp: parse_xfs_line_def Let_def filled_def update_conv' split: option.splits if_splits)

lemma fold_parse_xfs_filled:
  "key = ''blocks'' \<or> key = ''inodes'' \<Longrightarrow> filled q u \<Longrightarrow> filled (fold (parse_xfs_line key) lines q) u"
  by (induction lines arbitrary: q) (simp_all add: parse_xfs_line_filled)


lemma get_filesystem_type_proc: "proc (snd (get_filesystem_type w p)) = proc w"
  by (simp add: get_filesystem_type_def run_def Let_def split: option.splits)

lemma resolve_proc: "proc (snd (resolve_filesystem_type w p)) = proc w"
  by (simp add: resolve_filesystem_type_def config_get_fallback_def get_filesystem_type_proc
      split: option.splits)

lemma list_users_quota_absent: "map_of q u = None \<Longrightarrow> list_users_quota q u = not_set"
  by (simp add: list_users_quota_def dict_get_def)

lemma parse_xfs_report_absent:
  "\<forall>line \<in> set (report_lines (stdout r)). \<not> startswith (strip line) u \<Longrightarrow>
   map_of (parse_xfs_report key r q) u = map_of q u"
  unfolding parse_xfs_report_def
  using fold_parse_xfs_absent[of "report_lines (stdout r)" u key q] not_startswith_no_row[of _ u 5]
  by auto

lemma parse_generic_report_absent:
  "\<forall>line \<in> set (report_lines (stdout r)). \<not> startswith (strip line) u \<Longrightarrow>
   map_of (parse_generic_report r) u = None"
  unfolding parse_generic_report_def
  using fold_parse_generic_absent[of "report_lines (stdout r)" u "[]"] not_startswith_no_row[of _ u 6]
  by auto

lemma fold_scan_absent:
  "\<forall>line \<in> set lines. \<not> startswith (strip line) u \<Longrightarrow> fold (scan_xfs_line u) lines i = i"
  by (induction lines arbitrary: i) (simp_all add: scan_xfs_line_def)

lemma scan_xfs_report_absent:
  "\<forall>line \<in> set (report_lines (stdout r)). \<not> startswith (strip line) u \<Longrightarrow>
   scan_xfs_report u r = None"
  by (simp add: scan_xfs_report_def fold_scan_absent)

lemma get_filesystem_type_calls:
  "proc_calls (snd (get_filesystem_type w p)) = proc_calls w @ [[''df'', ''-T'', p]]"
  by (simp add: get_filesystem_type_def run_def Let_def split: option.splits)

lemma resolve_calls:
  "quota_tool_calls (called_since w (snd (resolve_filesystem_type w p))) = []
   \<and> length (proc_calls w) \<le> length (proc_calls (snd (resolve_filesystem_type w p)))"
  by (simp add: resolve_filesystem_type_def config_get_fallback_def get_filesystem_type_calls
      called_since_def quota_tool_calls_def is_quota_tool_def split: option.splits)

lemma called_since_trans:
  "proc_calls w2 = proc_calls w1 @ cs \<Longrightarrow> length (proc_calls w) \<le> length (proc_calls w1) \<Longrightarrow>
   called_since w w2 = called_since w w1 @ cs"
  by (simp add: called_since_def)

section \<open>The two quota parsers\<close>

lemma filled_Nil: "filled [] u" by (simp add: filled_def)

lemma field_Nil: "field [] u key = None" by (simp add: field_def)

lemma field_parse_xfs_report_same:
  assumes "xfs_rows_exact u r" "u \<notin> set xfs_skipped" "field q u key = None"
  shows "field (parse_xfs_report key r q) u key = scan_xfs_report u r"
proof -
  have "\<forall>line \<in> set (report_lines (stdout r)). length (split_ws line) \<ge> 5 \<longrightarrow>
          startswith (strip line) u \<longrightarrow> split_ws line ! 0 = u"
    using assms(1) by (auto simp: xfs_rows_exact_def list_all_iff)
  from fold_parse_xfs_sim[OF this assms(2), of key q] assms(3)
  show ?thesis by (simp add: parse_xfs_report_def scan_xfs_report_def)
qed

lemma field_parse_xfs_report_other:
  "key' \<noteq> key \<Longrightarrow> field (parse_xfs_report key r q) u key' = field q u key'"
  by (simp add: parse_xfs_report_def fold_parse_xfs_other)

lemma filled_parse_xfs_report:
  "key = ''blocks'' \<or> key = ''inodes'' \<Longrightarrow> filled q u \<Longrightarrow> filled (parse_xfs_report key r q) u"
  by (simp add: parse_xfs_report_def fold_parse_xfs_filled)

lemma xfs_agree:
  assumes "u \<notin> set xfs_skipped" "xfs_rows_exact u rb" "xfs_rows_exact u ri"
  shows "list_users_quota
           (add_quota_str (parse_xfs_report ''inodes'' ri (parse_xfs_report ''blocks'' rb []))) u =
         render_xfs (scan_xfs_report u rb) (scan_xfs_report u ri)"
proof -
  let ?q1 = "parse_xfs_report ''blocks'' rb []"
  let ?q2 = "parse_xfs_report ''inodes'' ri ?q1"
  have b: "field ?q2 u ''blocks'' = scan_xfs_report u rb"
    using field_parse_xfs_report_same[OF assms(2,1) field_Nil]
    by (simp add: field_parse_xfs_report_other)
  have "field ?q1 u ''inodes'' = None"
    by (simp add: field_parse_xfs_report_other field_Nil)
  then have i: "field ?q2 u ''inodes'' = scan_xfs_report u ri"
    by (rule field_parse_xfs_report_same[OF assms(3,1)])
  have f: "filled ?q2 u"
    by (intro filled_parse_xfs_report filled_Nil) simp_all
  show ?thesis
  proof (cases "map_of ?q2 u")
    case None
    then have "scan_xfs_report u rb = None" "scan_xfs_report u ri = None"
      using b i by (simp_all add: field_def)
    then show ?thesis using None
      by (simp add: list_users_quota_def dict_get_def map_of_add_quota_str render_xfs_def truthy_def)
  next
    case (Some r)
    have B: "map_of r ''blocks'' = scan_xfs_report u rb" using b Some by (simp add: field_def)
    have I: "map_of r ''inodes'' = scan_xfs_report u ri" using i Some by (simp add: field_def)
    have ne: "map_of r ''blocks'' \<noteq> None \<or> map_of r ''inodes'' \<noteq> None"
      and nn: "\<And>k s. map_of r k = Some s \<Longrightarrow> s \<noteq> []"
      using f Some by (auto simp: filled_def)
    have tk: "map_of r k \<noteq> None \<Longrightarrow> truthy (map_of r k)" for k
      using nn[of k] by (cases "map_of r k") (auto simp: truthy_def)
    have t: "truthy (scan_xfs_report u rb) \<or> truthy (scan_xfs_report u ri)"
      using ne tk[of "''blocks''"] tk[of "''inodes''"] B I by auto
    have d: "\<And>k. dict_get r k ''-'' = or_dash (map_of r k)"
      using nn by (auto simp: dict_get_def or_dash_def split: option.splits)
    show ?thesis using Some t
      by (simp add: list_users_quota_def map_of_add_quota_str render_xfs_def d B I
            dict_get_def[of "AList.update _ _ _"] dict_get_def[of "(_ , _) # _"] dict_get_def[of "add_quota_str _"]
            update_conv')
  qed
qed


lemma last_row_Cons:
  "last_row u (l # ls) =
     (case last_row u ls of Some L \<Rightarrow> Some L | None \<Rightarrow> if is_row6 u l then Some l else None)"
  by (auto simp: last_row_def split: list.splits)

lemma parse_generic_line_row:
  "u \<notin> set generic_skipped \<Longrightarrow> is_row6 u l \<Longrightarrow>
   map_of (parse_generic_line l q) u =
     Some [(''quota_str'', ''blocks: '' @ split_ws l ! 1 @ ''/'' @ split_ws l ! 2 @
                          ''; inodes: '' @ split_ws l ! 4 @ ''/'' @ split_ws l ! 5)]"
  by (simp add: parse_generic_line_def is_row6_def Let_def update_conv')

lemma fold_parse_generic_last:
  assumes "u \<notin> set generic_skipped"
  shows "map_of (fold parse_generic_line lines q) u =
     (case last_row u lines of
        None \<Rightarrow> map_of q u
      | Some L \<Rightarrow> Some [(''quota_str'', ''blocks: '' @ split_ws L ! 1 @ ''/'' @ split_ws L ! 2 @
                          ''; inodes: '' @ split_ws L ! 4 @ ''/'' @ split_ws L ! 5)])"
proof (induction lines arbitrary: q)
  case Nil
  show ?case by (simp add: last_row_def)
next
  case (Cons l ls)
  show ?case
  proof (cases "is_row6 u l")
    case True
    then show ?thesis
      using Cons[of "parse_generic_line l q"] parse_generic_line_row[OF assms True, of q]
      by (simp add: last_row_Cons split: option.splits)
  next
    case False
    then have "map_of (parse_generic_line l q) u = map_of q u"
      by (intro parse_generic_line_absent) (simp add: is_row6_def)
    then show ?thesis
      using Cons[of "parse_generic_line l q"] False
      by (simp add: last_row_Cons split: option.splits)
  qed
qed

lemma generic_agree:
  assumes "u \<notin> set generic_skipped" "returncode batch = 0" "returncode single = 0"
    "3 \<le> length (report_lines (stdout single))"
    "is_row6 u (report_lines (stdout single) ! 2)"
    "last_row u (report_lines (stdout batch)) = Some (report_lines (stdout single) ! 2)"
  shows "list_users_quota (parse_generic_report batch) u = render_generic single"
  using assms fold_parse_generic_last[OF assms(1), of "report_lines (stdout batch)" "[]"]
  by (simp add: list_users_quota_def dict_get_def parse_generic_report_def render_generic_def
      is_row6_def Let_def)

section \<open>Environments that differ in their logs\<close>

lemma eqv_refl: "eqv w w" by (simp add: eqv_def)
lemma eqv_sym: "eqv w w' \<Longrightarrow> eqv w' w" by (simp add: eqv_def)
lemma eqv_trans: "eqv w w' \<Longrightarrow> eqv w' w'' \<Longrightarrow> eqv w w''" by (simp add: eqv_def)
lemma eqv_logs_l: "eqv (w\<lparr>logs := L\<rparr>) w' = eqv w w'" by (simp add: eqv_def)
lemma eqv_logs_r: "eqv w (w'\<lparr>logs := L\<rparr>) = eqv w w'" by (simp add: eqv_def)
lemma eqv_say_l: "eqv (say l m w) w' = eqv w w'" by (simp add: eqv_def say_def)
lemma eqv_say_r: "eqv w (say l m w') = eqv w w'" by (simp add: eqv_def say_def)
lemma eqv_proc_calls: "eqv w w' \<Longrightarrow> eqv (w\<lparr>proc_calls := X\<rparr>) (w'\<lparr>proc_calls := X\<rparr>)"
  by (simp add: eqv_def) (metis world.update_convs(7) world.update_convs(11) world.surjective)
lemma eqv_fs_calls: "eqv w w' \<Longrightarrow> eqv (w\<lparr>fs_calls := X\<rparr>) (w'\<lparr>fs_calls := X\<rparr>)"
  by (simp add: eqv_def) (metis world.update_convs(9) world.update_convs(11) world.surjective)
lemmas eqv_simps = eqv_refl eqv_logs_l eqv_logs_r eqv_say_l eqv_say_r eqv_proc_calls eqv_fs_calls

lemma eqv_ex: "eqv w w' \<Longrightarrow> \<exists>L. w' = w\<lparr>logs := L\<rparr>"
proof -
  assume "eqv w w'"
  then have "w\<lparr>logs := []\<rparr> = w'\<lparr>logs := []\<rparr>" by (simp add: eqv_def)
  then have "(w\<lparr>logs := []\<rparr>)\<lparr>logs := logs w'\<rparr> = (w'\<lparr>logs := []\<rparr>)\<lparr>logs := logs w'\<rparr>" by simp
  then have "w\<lparr>logs := logs w'\<rparr> = w'" by simp
  then show ?thesis by metis
qed

lemma insensitiveD:
  assumes "insensitive f" "eqv w w'"
  shows "fst (f w') = fst (f w)" "eqv (snd (f w')) (snd (f w))"
  using assms eqv_ex[OF assms(2)] by (auto simp: insensitive_def)

lemma relog_config_get: "config_get (w\<lparr>logs := L\<rparr>) a b = config_get w a b"
  by (simp add: config_get_def)
lemma relog_config_get_fallback: "config_get_fallback (w\<lparr>logs := L\<rparr>) a b d f = config_get_fallback w a b d f"
  by (simp add: config_get_fallback_def)
lemma relog_get_ldap_connection: "get_ldap_connection (w\<lparr>logs := L\<rparr>) = get_ldap_connection w"
  by (simp add: get_ldap_connection_def config_get_def split: option.splits)
lemma relog_get_kadmin_password: "get_kadmin_password (w\<lparr>logs := L\<rparr>) = get_kadmin_password w"
  by (simp add: get_kadmin_password_def config_get_def split: option.splits)
lemma relog_ldap_search: "ldap_search (w\<lparr>logs := L\<rparr>) dn = ldap_search w dn"
  by (simp add: ldap_search_def)
lemma relog_say: "say l m (w\<lparr>logs := L\<rparr>) = w\<lparr>logs := L @ [(l, m)]\<rparr>"
  by (simp add: say_def)
lemma relog_ldap_add: "ldap_add (w\<lparr>logs := L\<rparr>) dn a = (ldap_add w dn a)\<lparr>logs := L\<rparr>"
  by (simp add: ldap_add_def)
lemma relog_ldap_modify_add: "ldap_modify_add (w\<lparr>logs := L\<rparr>) dn a v = (ldap_modify_add w dn a v)\<lparr>logs := L\<rparr>"
  by (simp add: ldap_modify_add_def split: option.splits)
lemma relog_run: "run (w\<lparr>logs := L\<rparr>) cmd = (fst (run w cmd), (snd (run w cmd))\<lparr>logs := L\<rparr>)"
  by (simp add: run_def)
lemma ldap_add_config_get: "config_get (ldap_add w dn a) x y = config_get w x y"
  by (simp add: ldap_add_def config_get_def)
lemma say_config_get': "config_get (say l m w) x y = config_get w x y"
  by (simp add: say_def config_get_def)
lemmas relog = ldap_add_config_get say_config_get' relog_config_get relog_config_get_fallback relog_get_ldap_connection relog_get_kadmin_password
  relog_ldap_search relog_say relog_ldap_add relog_ldap_modify_add

lemma add_to_group_eqv:
  assumes "eqv w' w"
  shows "eqv (add_to_group u gou bdn pg g w') (add_to_group u gou bdn pg g w)"
proof -
  obtain L where "w' = w\<lparr>logs := L\<rparr>" using eqv_ex[OF eqv_sym[OF assms]] by blast
  then show ?thesis
    by (simp add: add_to_group_def Let_def relog eqv_simps)
qed

lemma fold_add_to_group_eqv:
  "eqv w' w \<Longrightarrow> eqv (fold (add_to_group u gou bdn pg) gs w') (fold (add_to_group u gou bdn pg) gs w)"
  by (induction gs arbitrary: w w') (simp_all add: add_to_group_eqv)

lemma ldap_add_eqv: "eqv w' w \<Longrightarrow> eqv (ldap_add w' dn a) (ldap_add w dn a)"
proof -
  assume a: "eqv w' w"
  obtain L where "w' = w\<lparr>logs := L\<rparr>" using eqv_ex[OF eqv_sym[OF a]] by blast
  then show ?thesis by (simp add: relog eqv_simps)
qed

lemma ldap_body_insensitive:
  "fst (add_user_to_ldap_body (w\<lparr>logs := L\<rparr>) uid u s f gs) = fst (add_user_to_ldap_body w uid u s f gs)
   \<and> eqv (snd (add_user_to_ldap_body (w\<lparr>logs := L\<rparr>) uid u s f gs)) (snd (add_user_to_ldap_body w uid u s f gs))"
  by (auto simp: add_user_to_ldap_body_def Let_def relog eqv_simps
      intro!: fold_add_to_group_eqv ldap_add_eqv split: option.splits sum.splits)


lemma wrapper_insensitive:
  assumes "\<And>w L. fst (body (w\<lparr>logs := L\<rparr>)) = fst (body w) \<and> eqv (snd (body (w\<lparr>logs := L\<rparr>))) (snd (body w))"
  shows "insensitive (\<lambda>w. case body w of (Inr ok, w') \<Rightarrow> (ok, w') | (Inl e, w') \<Rightarrow> (False, say Error m w'))"
  unfolding insensitive_def
proof (intro allI)
  fix w L
  obtain r1 w1 where 1: "body (w\<lparr>logs := L\<rparr>) = (r1, w1)" by fastforce
  obtain r2 w2 where 2: "body w = (r2, w2)" by fastforce
  from assms[where w=w and L=L] 1 2 have "r1 = r2" "eqv w1 w2" by simp_all
  then show "fst (case body (w\<lparr>logs := L\<rparr>) of (Inr ok, w') \<Rightarrow> (ok, w') | (Inl e, w') \<Rightarrow> (False, say Error m w')) =
         fst (case body w of (Inr ok, w') \<Rightarrow> (ok, w') | (Inl e, w') \<Rightarrow> (False, say Error m w')) \<and>
         eqv (snd (case body (w\<lparr>logs := L\<rparr>) of (Inr ok, w') \<Rightarrow> (ok, w') | (Inl e, w') \<Rightarrow> (False, say Error m w')))
          (snd (case body w of (Inr ok, w') \<Rightarrow> (ok, w') | (Inl e, w') \<Rightarrow> (False, say Error m w')))"
    unfolding 1 2 by (cases r2) (simp_all add: eqv_simps)
qed

lemma ldap_insensitive: "insensitive (\<lambda>w. add_user_to_ldap w uid u s f gs)"
  unfolding add_user_to_ldap_def by (rule wrapper_insensitive) (rule ldap_body_insensitive)

lemma kerberos_body_insensitive:
  "fst (add_user_to_kerberos_body (w\<lparr>logs := L\<rparr>) u p) = fst (add_user_to_kerberos_body w u p)
   \<and> eqv (snd (add_user_to_kerberos_body (w\<lparr>logs := L\<rparr>) u p)) (snd (add_user_to_kerberos_body w u p))"
  by (simp add: add_user_to_kerberos_body_def Let_def relog run_def eqv_simps
      split: option.splits)

lemma kerberos_insensitive: "insensitive (\<lambda>w. add_user_to_kerberos w u p)"
  unfolding add_user_to_kerberos_def by (rule wrapper_insensitive) (rule kerberos_body_insensitive)

lemma home_body_insensitive:
  "fst (create_home_directory_body (w\<lparr>logs := L\<rparr>) u) = fst (create_home_directory_body w u)
   \<and> eqv (snd (create_home_directory_body (w\<lparr>logs := L\<rparr>) u)) (snd (create_home_directory_body w u))"
  by (simp add: create_home_directory_body_def Let_def relog eqv_simps
      split: option.splits fs_outcome.splits)

lemma home_insensitive: "insensitive (\<lambda>w. create_home_directory w u)"
  unfolding create_home_directory_def by (rule wrapper_insensitive) (rule home_body_insensitive)

lemma relog_get_filesystem_type:
  "get_filesystem_type (w\<lparr>logs := L\<rparr>) p =
     (fst (get_filesystem_type w p), (snd (get_filesystem_type w p))\<lparr>logs := L\<rparr>)"
  by (simp add: get_filesystem_type_def run_def Let_def split: option.splits)

lemma relog_resolve:
  "resolve_filesystem_type (w\<lparr>logs := L\<rparr>) p =
     (fst (resolve_filesystem_type w p), (snd (resolve_filesystem_type w p))\<lparr>logs := L\<rparr>)"
  by (simp add: resolve_filesystem_type_def relog relog_get_filesystem_type split: option.splits)

lemma quota_body_insensitive:
  "fst (set_user_quota_body (w\<lparr>logs := L\<rparr>) u) = fst (set_user_quota_body w u)
   \<and> eqv (snd (set_user_quota_body (w\<lparr>logs := L\<rparr>) u)) (snd (set_user_quota_body w u))"
  by (simp add: set_user_quota_body_def Let_def relog relog_resolve relog_run split_def eqv_simps
      split: option.splits)

lemma quota_insensitive: "insensitive (\<lambda>w. set_user_quota w u)"
  unfolding set_user_quota_def by (rule wrapper_insensitive) (rule quota_body_insensitive)

lemma run_step_eqv:
  assumes "insensitive method" "eqv (snd st') (snd st)" "fst st' = fst st"
  shows "fst (run_step name failed steps method st') = fst (run_step name failed steps method st)
       \<and> eqv (snd (run_step name failed steps method st')) (snd (run_step name failed steps method st))"
  using assms insensitiveD[OF assms(1) eqv_sym[OF assms(2)]]
  by (simp add: run_step_def split_def eqv_simps)

lemma add_user_results_eqv:
  assumes "eqv w' w"
  shows "fst (add_user_results w' uid g u s f p steps) = fst (add_user_results w uid g u s f p steps)
       \<and> eqv (snd (add_user_results w' uid g u s f p steps)) (snd (add_user_results w uid g u s f p steps))"
proof -
  have 0: "eqv (snd ([]::results, say Info (AddUserStart u) w')) (snd ([]::results, say Info (AddUserStart u) w))"
          "fst ([]::results, say Info (AddUserStart u) w') = fst ([]::results, say Info (AddUserStart u) w)"
    using assms by (simp_all add: eqv_simps)
  show ?thesis
    unfolding add_user_results_def Let_def
    by (intro run_step_eqv[THEN conjunct1] run_step_eqv[THEN conjunct2] conjI
          ldap_insensitive kerberos_insensitive home_insensitive quota_insensitive)
       (simp_all add: eqv_simps assms)
qed


lemma add_user_eqv:
  assumes "eqv w' w"
  shows "fst (add_user w' uid g u s f p steps) = fst (add_user w uid g u s f p steps)
       \<and> eqv (snd (add_user w' uid g u s f p steps)) (snd (add_user w uid g u s f p steps))"
  using add_user_results_eqv[OF assms, of uid g u s f p steps]
  by (simp add: add_user_def split_def Let_def eqv_simps)

lemma process_line_eqv:
  assumes "eqv w' w"
  shows "fst (process_line w' r n raw steps) = fst (process_line w r n' raw steps)
       \<and> eqv (snd (process_line w' r n raw steps)) (snd (process_line w r n' raw steps))"
  using assms
    add_user_eqv[OF assms, of "case py_int 10 (split_ws (strip raw) ! 0) of Some i \<Rightarrow> i | None \<Rightarrow> 0"
      "split_ws (strip raw) ! 1" "split_ws (strip raw) ! 2" "split_ws (strip raw) ! 3"
      "split_ws (strip raw) ! 4" "split_ws (strip raw) ! 5" steps]
  by (auto simp: process_line_def Let_def split_def eqv_simps split: option.splits)

lemma process_line_rejected:
  "\<not> accepted raw \<Longrightarrow>
   fst (process_line w r n raw steps) = r \<and> eqv (snd (process_line w r n raw steps)) w"
  by (auto simp: process_line_def accepted_def ignored_def fields_def Let_def eqv_simps
      split: option.splits)

lemma process_lines_filter:
  "eqv w' w \<Longrightarrow>
   fst (process_lines w' r n ls steps) = fst (process_lines w r n' (filter accepted ls) steps)
   \<and> eqv (snd (process_lines w' r n ls steps)) (snd (process_lines w r n' (filter accepted ls) steps))"
proof (induction ls arbitrary: w w' r n n')
  case Nil
  then show ?case by simp
next
  case (Cons raw rest)
  show ?case
  proof (cases "accepted raw")
    case True
    from process_line_eqv[OF Cons.prems, of r n raw steps n']
    have 1: "fst (process_line w' r n raw steps) = fst (process_line w r n' raw steps)"
      and 2: "eqv (snd (process_line w' r n raw steps)) (snd (process_line w r n' raw steps))"
      by simp_all
    show ?thesis
      using True Cons.IH[OF 2, of "fst (process_line w r n' raw steps)" "Suc n" "Suc n'"] 1
      by (simp add: split_def)
  next
    case False
    from process_line_rejected[OF False, of w' r n steps]
    have 1: "fst (process_line w' r n raw steps) = r"
      and 2: "eqv (snd (process_line w' r n raw steps)) w'" by simp_all
    have 3: "eqv (snd (process_line w' r n raw steps)) w" using 2 Cons.prems by (rule eqv_trans)
    show ?thesis
      using False Cons.IH[OF 3, of r "Suc n" n'] 1 by (simp add: split_def)
  qed
qed


lemma process_line_skip:
  assumes "\<not> ignored raw" "length (fields raw) \<noteq> 6 \<or> py_int 10 (fields raw ! 0) = None"
  shows "process_line w results n raw steps =
     (results, say (if length (fields raw) \<noteq> 6 then Warning else Error)
                   (if length (fields raw) \<noteq> 6 then LineBadFormat n else LineParseError n) w)"
  using assms by (auto simp: process_line_def ignored_def fields_def Let_def)

lemma process_line_keys:
  "set (map fst (fst (process_line w r n raw steps))) \<subseteq>
     set (map fst r) \<union> (if accepted raw then {fields raw ! 2} else {})"
  by (auto simp: process_line_def accepted_def ignored_def fields_def Let_def split_def dom_update
      split: option.splits)

lemma process_lines_keys:
  "set (map fst (fst (process_lines w r n ls steps))) \<subseteq>
     set (map fst r) \<union> set (map (\<lambda>raw. fields raw ! 2) (filter accepted ls))"
proof (induction ls arbitrary: w r n)
  case Nil
  show ?case by simp
next
  case (Cons raw rest)
  have "set (map fst (fst (process_lines w r n (raw # rest) steps))) \<subseteq>
      set (map fst (fst (process_line w r n raw steps))) \<union>
      set (map (\<lambda>raw. fields raw ! 2) (filter accepted rest))"
    using Cons[of "snd (process_line w r n raw steps)" "fst (process_line w r n raw steps)" "Suc n"]
    by (simp add: split_def)
  then show ?case using process_line_keys[of w r n raw steps] by (auto split: if_splits)
qed

lemma started_append: "started (a @ b) = started a @ started b"
  by (simp add: started_def map_filter_app)

lemma started_step: "step_of (snd r) = Some s \<Longrightarrow> started [r] = []"
  by (cases "snd r") (simp_all add: started_def)

lemma started_steps: "\<forall>r \<in> set L. step_of (snd r) = Some s \<Longrightarrow> started L = []"
proof (induction L)
  case Nil
  show ?case by (simp add: started_def)
next
  case (Cons r L)
  then show ?case using started_append[of "[r]" L] started_step[of r s] by simp
qed

lemma grown_refl: "grown w w"
  by (simp add: grown_def started_def)

lemma grown_trans: "grown w w' \<Longrightarrow> grown w' w'' \<Longrightarrow> grown w w''"
  by (auto simp: grown_def started_append)

lemma block_grown: "block s w w' \<Longrightarrow> grown w w'"
  unfolding block_def grown_def using started_steps by blast

lemma run_step_grown:
  assumes "\<And>w. block1 name w (snd (method w))" "step_of failed = Some name"
  shows "grown (snd state) (snd (run_step name failed steps method state))"
proof -
  have "block name (snd state) (snd (run_step name failed steps method state))"
    using assms(2) assms(1)[of "snd state"]
    by (auto simp: run_step_def split_def intro: block_say block1_block block_refl)
  then show ?thesis by (rule block_grown)
qed

lemma add_user_results_grown:
  "grown (say Info (AddUserStart u) w) (snd (add_user_results w uid g u s f p steps))"
  unfolding add_user_results_def Let_def
  by (intro grown_trans[OF _ run_step_grown] grown_trans[OF grown_refl run_step_grown])
     (simp_all add: ldap_block1 kerberos_block1 home_block1 quota_block1 grown_refl)

lemma add_user_started:
  "\<exists>L. logs (snd (add_user w uid g u s f p steps)) = logs w @ L \<and> started L = [u]"
proof -
  obtain L where L: "logs (snd (add_user_results w uid g u s f p steps)) =
      logs w @ (Info, AddUserStart u) # L" "started L = []"
    using add_user_results_grown[of u w uid g s f p steps] by (auto simp: grown_def say_logs)
  have "started ((Info, AddUserStart u) # L @ [x]) = [u]"
    if "snd x = AddUserDone u \<or> (\<exists>t. snd x = StepsFailed t)" for x
    using that L(2) started_append[of "[(Info, AddUserStart u)]" "L @ [x]"] started_append[of L "[x]"]
    by (auto simp: started_def)
  then show ?thesis
    using L(1) by (auto simp: add_user_def split_def Let_def say_logs)
qed

lemma process_line_started:
  "\<exists>L. logs (snd (process_line w r n raw steps)) = logs w @ L \<and>
       started L = (if accepted raw then [fields raw ! 2] else [])"
proof (cases "accepted raw")
  case True
  then obtain i where i: "py_int 10 (split_ws (strip raw) ! 0) = Some i"
    by (auto simp: accepted_def fields_def)
  show ?thesis
    using True i add_user_started[of w i "fields raw ! 1" "fields raw ! 2" "fields raw ! 3"
        "fields raw ! 4" "fields raw ! 5" steps]
    by (simp add: process_line_def accepted_def ignored_def fields_def Let_def split_def)
next
  case False
  then show ?thesis
    by (auto simp: process_line_def accepted_def ignored_def fields_def Let_def say_logs started_def
        split: option.splits)
qed

lemma process_lines_started:
  "\<exists>L. logs (snd (process_lines w r n ls steps)) = logs w @ L \<and>
       started L = map (\<lambda>raw. fields raw ! 2) (filter accepted ls)"
proof (induction ls arbitrary: w r n)
  case Nil
  show ?case by (simp add: started_def)
next
  case (Cons raw rest)
  let ?s = "process_line w r n raw steps"
  obtain L1 where 1: "logs (snd ?s) = logs w @ L1"
      "started L1 = (if accepted raw then [fields raw ! 2] else [])"
    using process_line_started[of w r n raw steps] by blast
  obtain L2 where 2: "logs (snd (process_lines (snd ?s) (fst ?s) (Suc n) rest steps)) = logs (snd ?s) @ L2"
      "started L2 = map (\<lambda>raw. fields raw ! 2) (filter accepted rest)"
    using Cons[of "snd ?s" "fst ?s" "Suc n"] by blast
  show ?case
    by (rule exI[of _ "L1 @ L2"]) (simp add: split_def 1 2 started_append)
qed

lemma process_lines_append:
  "process_lines w r n (xs @ ys) steps =
     process_lines (snd (process_lines w r n xs steps)) (fst (process_lines w r n xs steps))
       (n + length xs) ys steps"
  by (induction xs arbitrary: w r n) (simp_all add: split_def)

lemma process_line_distinct:
  "distinct (map fst r) \<Longrightarrow> distinct (map fst (fst (process_line w r n raw steps)))"
  by (auto simp: process_line_def Let_def split_def distinct_update split: option.splits)

lemma process_lines_distinct:
  "distinct (map fst r) \<Longrightarrow> distinct (map fst (fst (process_lines w r n ls steps)))"
  by (induction ls arbitrary: w r n) (simp_all add: split_def process_line_distinct)

lemma process_line_other:
  "\<not> (accepted raw \<and> fields raw ! 2 = u) \<Longrightarrow>
   map_of (fst (process_line w r n raw steps)) u = map_of r u"
  by (auto simp: process_line_def accepted_def ignored_def fields_def Let_def split_def update_conv'
      split: option.splits)

lemma process_lines_other:
  "\<forall>raw \<in> set ls. \<not> (accepted raw \<and> fields raw ! 2 = u) \<Longrightarrow>
   map_of (fst (process_lines w r n ls steps)) u = map_of r u"
  by (induction ls arbitrary: w r n) (simp_all add: split_def process_line_other)

lemma process_line_accepted:
  assumes "accepted raw" "py_int 10 (fields raw ! 0) = Some uid"
  shows "map_of (fst (process_line w r n raw steps)) (fields raw ! 2) =
     Some (fst (add_user w uid (fields raw ! 1) (fields raw ! 2) (fields raw ! 3)
                  (fields raw ! 4) (fields raw ! 5) steps))"
  using assms
  by (simp add: process_line_def accepted_def ignored_def fields_def Let_def split_def update_conv')

lemma parse_xfs_report_no_row:
  "\<forall>line \<in> set (report_lines (stdout r)). \<not> (split_ws line \<noteq> [] \<and> split_ws line ! 0 = u) \<Longrightarrow>
   map_of (parse_xfs_report key r q) u = map_of q u"
proof -
  assume "\<forall>line \<in> set (report_lines (stdout r)). \<not> (split_ws line \<noteq> [] \<and> split_ws line ! 0 = u)"
  then have "\<forall>line \<in> set (report_lines (stdout r)). \<not> (length (split_ws line) \<ge> 5 \<and> split_ws line ! 0 = u)"
    by fastforce
  then show ?thesis
    by (simp add: parse_xfs_report_def fold_parse_xfs_absent)
qed

lemma parse_generic_report_no_row:
  "\<forall>line \<in> set (report_lines (stdout r)). \<not> (split_ws line \<noteq> [] \<and> split_ws line ! 0 = u) \<Longrightarrow>
   map_of (parse_generic_report r) u = None"
proof -
  assume "\<forall>line \<in> set (report_lines (stdout r)). \<not> (split_ws line \<noteq> [] \<and> split_ws line ! 0 = u)"
  then have "\<forall>line \<in> set (report_lines (stdout r)). \<not> (length (split_ws line) \<ge> 6 \<and> split_ws line ! 0 = u)"
    by fastforce
  then show ?thesis
    by (simp add: parse_generic_report_def fold_parse_generic_absent)
qed

section \<open>The workflow engine\<close>

text \<open>
  C1, as the code has it. When the directory entry of the user exists already and the
  directory answers, \<open>add_user_to_ldap\<close> finds the entry first, creates nothing, writes a
  warning and does not raise; but it returns \<open>False\<close>. So a workflow that asks for the
  \<open>ldap\<close> step records that step as failed, and its overall result is \<open>False\<close>: the step
  does not come out as succeeded.
\<close>

theorem add_user_existing_entry:
  assumes "get_ldap_connection w = Inr ()"
      and "config_get w ''LDAP'' ''user_ou'' = Some user_ou"
      and "config_get w ''LDAP'' ''base_dn'' = Some base_dn"
      and "ldap_dir w (''uid='' @ u @ '','' @ user_ou @ '','' @ base_dn) \<noteq> None"
      and "''ldap'' \<in> set (requested steps)"
  shows "add_user_to_ldap w uid u s f gs = (False, say Warning (LdapUserExists u) w)
       \<and> map_of (fst (add_user_results w uid g u s f p steps)) ''ldap'' = Some False
       \<and> fst (add_user w uid g u s f p steps) = False"
proof -
  let ?w0 = "say Info (AddUserStart u) w"
  let ?gl = "map strip (split_on CHR '','' g)"
  have 1: "add_user_to_ldap w uid u s f gs = (False, say Warning (LdapUserExists u) w)"
    using assms(1-4) by (rule existing_entry)
  have "add_user_to_ldap ?w0 uid u s f ?gl = (False, say Warning (LdapUserExists u) ?w0)"
    using assms(1-4)
    by (intro existing_entry[where user_ou=user_ou and base_dn=base_dn])
       (simp_all add: say_get_ldap_connection say_config_get say_ldap_dir)
  then have "map_of (fst (run_step ''ldap'' LdapStepFailed (requested steps)
       (\<lambda>w. add_user_to_ldap w uid u s f ?gl) ([], ?w0))) ''ldap'' = Some False"
    using assms(5) by (simp add: run_step_def)
  then have 2: "map_of (fst (add_user_results w uid g u s f p steps)) ''ldap'' = Some False"
    unfolding add_user_results_def Let_def requested_def by (simp add: run_step_other)
  then have "(''ldap'', False) \<in> set (fst (add_user_results w uid g u s f p steps))"
    by (rule map_of_SomeD)
  then have 3: "fst (add_user w uid g u s f p steps) = False"
    unfolding add_user_overall by force
  show ?thesis using 1 2 3 by simp
qed

text \<open>In \<open>provisioned_world\<close> the directory answers and holds the entry of \<open>alice\<close>.\<close>

theorem add_user_existing_entry_witness:
  "get_ldap_connection provisioned_world = Inr ()
   \<and> config_get provisioned_world ''LDAP'' ''user_ou'' = Some ''ou=people''
   \<and> config_get provisioned_world ''LDAP'' ''base_dn'' = Some ''dc=sch179,dc=local''
   \<and> ldap_dir provisioned_world
         (''uid='' @ ''alice'' @ '','' @ ''ou=people'' @ '','' @ ''dc=sch179,dc=local'') \<noteq> None
   \<and> ''ldap'' \<in> set (requested None)
   \<and> map_of (fst (add_user_results provisioned_world 1001 ''students'' ''alice'' ''Ivanova''
                     ''Alice'' ''secret123'' None)) ''ldap'' = Some False
   \<and> fst (add_user provisioned_world 1001 ''students'' ''alice'' ''Ivanova'' ''Alice''
              ''secret123'' None) = False"
proof -
  have h1: "get_ldap_connection provisioned_world = Inr ()"
    by (simp add: provisioned_world_def eval_defs)
  have h2: "config_get provisioned_world ''LDAP'' ''user_ou'' = Some ''ou=people''"
    by (simp add: provisioned_world_def eval_defs)
  have h3: "config_get provisioned_world ''LDAP'' ''base_dn'' = Some ''dc=sch179,dc=local''"
    by (simp add: provisioned_world_def eval_defs)
  have h4: "ldap_dir provisioned_world
      (''uid='' @ ''alice'' @ '','' @ ''ou=people'' @ '','' @ ''dc=sch179,dc=local'') \<noteq> None"
    by (simp add: provisioned_world_def eval_defs)
  have h5: "''ldap'' \<in> set (requested None)"
    by (simp add: requested_def default_steps_def)
  show ?thesis
    using h1 h2 h3 h4 h5
      add_user_existing_entry[OF h1 h2 h3 h4 h5, where uid=1001 and s="''Ivanova''"
        and f="''Alice''" and gs="[]" and g="''students''" and p="''secret123''"]
    by simp
qed

text \<open>
  C1 as the specification states it fails: the first run, on an empty directory,
  succeeds; the second run, on the state that the first one left, records the \<open>ldap\<close>
  step as \<open>False\<close>.
\<close>

theorem reprovision_counterexample:
  "fst (add_user sample_world 1001 ''students'' ''alice'' ''Ivanova'' ''Alice'' ''secret123''
          (Some [''ldap''])) = True
   \<and> fst (add_user_results
        (snd (add_user sample_world 1001 ''students'' ''alice'' ''Ivanova'' ''Alice''
                ''secret123'' (Some [''ldap''])))
        1001 ''students'' ''alice'' ''Ivanova'' ''Alice'' ''secret123'' (Some [''ldap'']))
       = [(''ldap'', False)]"
  by (simp add: eval_defs)



text \<open>
  C3, as the code has it. The steps run in the order \<open>ldap\<close>, \<open>kerberos\<close>, \<open>home\<close>, \<open>quota\<close>
  whatever the order of the list: the keys of the result dictionary and the steps in the
  log are the listed ones of the four in that order, and a list gives the same outcome
  as the list of its recognised steps in that order. A step that is not listed has no
  entry in the result dictionary (nothing is recorded as skipped).
\<close>

theorem add_user_fixed_order:
  "map fst (fst (add_user_results w uid g u s f p (Some steps))) =
     filter (\<lambda>x. x \<in> set steps) [''ldap'', ''kerberos'', ''home'', ''quota'']
   \<and> step_trace (logged_since w (snd (add_user_results w uid g u s f p (Some steps)))) =
     filter (\<lambda>x. x \<in> set steps) [''ldap'', ''kerberos'', ''home'', ''quota'']
   \<and> add_user_results w uid g u s f p (Some steps) =
     add_user_results w uid g u s f p
       (Some (filter (\<lambda>x. x \<in> set steps) [''ldap'', ''kerberos'', ''home'', ''quota'']))
   \<and> (\<forall>step. step \<notin> set steps \<longrightarrow>
          map_of (fst (add_user_results w uid g u s f p (Some steps))) step = None)"
proof -
  let ?r = "fst (add_user_results w uid g u s f p (Some steps))"
  have k: "map fst ?r = filter (\<lambda>x. x \<in> set steps) [''ldap'', ''kerberos'', ''home'', ''quota'']"
    using add_user_results_keys[of w uid g u s f p "Some steps"]
    by (simp add: requested_def default_steps_def)
  have t: "step_trace (logged_since w (snd (add_user_results w uid g u s f p (Some steps)))) =
     filter (\<lambda>x. x \<in> set steps) [''ldap'', ''kerberos'', ''home'', ''quota'']"
    using add_user_results_trace[of w uid g u s f p "Some steps"]
    by (simp add: requested_def default_steps_def)
  have n: "add_user_results w uid g u s f p (Some steps) =
     add_user_results w uid g u s f p
       (Some (filter (\<lambda>x. x \<in> set steps) [''ldap'', ''kerberos'', ''home'', ''quota'']))"
    using add_user_results_normal[of w uid g u s f p steps] by (simp add: default_steps_def)
  have a: "\<forall>step. step \<notin> set steps \<longrightarrow> map_of ?r step = None"
  proof (intro allI impI)
    fix step assume "step \<notin> set steps"
    then have "step \<notin> set (map fst ?r)" unfolding k by (auto simp del: filter.simps)
    then show "map_of ?r step = None" by (simp add: map_of_eq_None_iff)
  qed
  show ?thesis using k t n a by blast
qed

text \<open>Listed as \<open>quota\<close>, \<open>ldap\<close>, \<open>quota\<close>: \<open>ldap\<close> runs first, \<open>home\<close> has no entry.\<close>

theorem add_user_fixed_order_witness:
  "map fst (fst (add_user_results sample_world 1001 ''students'' ''alice'' ''Ivanova'' ''Alice''
                   ''secret123'' (Some [''quota'', ''ldap'', ''quota'']))) = [''ldap'', ''quota'']
   \<and> step_trace (logged_since sample_world
         (snd (add_user_results sample_world 1001 ''students'' ''alice'' ''Ivanova'' ''Alice''
                 ''secret123'' (Some [''quota'', ''ldap'', ''quota''])))) = [''ldap'', ''quota'']
   \<and> map_of (fst (add_user_results sample_world 1001 ''students'' ''alice'' ''Ivanova'' ''Alice''
                     ''secret123'' (Some [''quota'', ''ldap'', ''quota'']))) ''home'' = None"
  using add_user_fixed_order[of sample_world 1001 "''students''" "''alice''" "''Ivanova''"
      "''Alice''" "''secret123''" "[''quota'', ''ldap'', ''quota'']"]
  by (simp add: eval_defs)

text \<open>
  C3 as the specification states it fails: with only \<open>home\<close> listed, the result holds
  the entry of \<open>home\<close> and nothing for \<open>ldap\<close>.
\<close>

theorem unlisted_step_counterexample:
  "''ldap'' \<notin> set [''home'']
   \<and> fst (add_user_results sample_world 1001 ''students'' ''alice'' ''Ivanova'' ''Alice''
              ''secret123'' (Some [''home''])) = [(''home'', True)]
   \<and> map_of (fst (add_user_results sample_world 1001 ''students'' ''alice'' ''Ivanova'' ''Alice''
                     ''secret123'' (Some [''home'']))) ''ldap'' = None"
  by (simp add: eval_defs)

text \<open>
  C9. When \<open>steps\<close> is empty or names none of the four steps, \<open>add_user\<close> runs no step:
  the result dictionary is empty, the overall result is \<open>True\<close>, and the environment
  differs from the one before by the two log records of \<open>add_user\<close> itself only.
\<close>

theorem add_user_no_known_step:
  assumes "set steps \<inter> {''ldap'', ''kerberos'', ''home'', ''quota''} = {}"
  shows "add_user_results w uid g u s f p (Some steps) = ([], say Info (AddUserStart u) w)
       \<and> add_user w uid g u s f p (Some steps) =
           (True, say Info (AddUserDone u) (say Info (AddUserStart u) w))"
  using assms by (simp add: add_user_def add_user_results_def Let_def run_step_def)

text \<open>Unknown names (\<open>LDAP\<close> is not \<open>ldap\<close>) and the empty list.\<close>

theorem add_user_no_known_step_witness:
  "set [''sudo'', ''LDAP''] \<inter> {''ldap'', ''kerberos'', ''home'', ''quota''} = {}
   \<and> add_user sample_world 1001 ''students'' ''alice'' ''Ivanova'' ''Alice'' ''secret123''
         (Some [''sudo'', ''LDAP''])
       = (True, sample_world\<lparr>logs := [(Info, AddUserStart ''alice''),
                                        (Info, AddUserDone ''alice'')]\<rparr>)
   \<and> add_user_results sample_world 1001 ''students'' ''alice'' ''Ivanova'' ''Alice''
         ''secret123'' (Some [])
       = ([], sample_world\<lparr>logs := [(Info, AddUserStart ''alice'')]\<rparr>)"
proof -
  have h: "set [''sudo'', ''LDAP''] \<inter> {''ldap'', ''kerberos'', ''home'', ''quota''} = {}"
    by simp
  have h0: "set [] \<inter> {''ldap'', ''kerberos'', ''home'', ''quota''} = {}"
    by simp
  show ?thesis
    using h
      add_user_no_known_step[OF h, of sample_world 1001 "''students''" "''alice''"
        "''Ivanova''" "''Alice''" "''secret123''"]
      add_user_no_known_step[OF h0, of sample_world 1001 "''students''" "''alice''"
        "''Ivanova''" "''Alice''" "''secret123''"]
    by (simp add: say_def sample_world_def)
qed

section \<open>The status checks and the quota reports\<close>

text \<open>
  C7. \<open>check_kerberos_principal\<close> returns \<open>True\<close> exactly when the realm is configured,
  the invocation of the realm tool that the configuration determines for
  \<open>username@REALM\<close> can be started, the tool exits with code zero and its output contains
  \<open>Principal: username@REALM\<close>; so code zero without the marker gives \<open>False\<close>. Whenever
  that invocation is determined, the method makes it, once, and changes nothing else.
  The method has no exceptional result: whenever its body raises, it returns \<open>False\<close>.
\<close>

theorem check_kerberos_principal_iff:
  "(fst (check_kerberos_principal w u) \<longleftrightarrow>
      (\<exists>realm cmd result.
          config_get w ''KERBEROS'' ''realm'' = Some realm
        \<and> getprinc_command w (u @ ''@'' @ realm) = Some cmd
        \<and> proc w (proc_calls w) cmd = Some result
        \<and> returncode result = 0
        \<and> contains (stdout result) (''Principal: '' @ u @ ''@'' @ realm)))
   \<and> (\<forall>realm cmd.
         config_get w ''KERBEROS'' ''realm'' = Some realm \<longrightarrow>
         getprinc_command w (u @ ''@'' @ realm) = Some cmd \<longrightarrow>
         snd (check_kerberos_principal w u) = w\<lparr>proc_calls := proc_calls w @ [cmd]\<rparr>)
   \<and> (\<forall>e. fst (check_kerberos_principal_body w u) = Inl e \<longrightarrow>
          fst (check_kerberos_principal w u) = False)"
proof -
  have 1: "fst (check_kerberos_principal w u) \<longleftrightarrow>
      (\<exists>realm cmd result.
          config_get w ''KERBEROS'' ''realm'' = Some realm
        \<and> getprinc_command w (u @ ''@'' @ realm) = Some cmd
        \<and> proc w (proc_calls w) cmd = Some result
        \<and> returncode result = 0
        \<and> contains (stdout result) (''Principal: '' @ u @ ''@'' @ realm))"
    by (auto simp: check_kerberos_principal_def check_kerberos_principal_body_def Let_def run_def
          getprinc_command_def split: option.splits)
  have 2: "snd (check_kerberos_principal w u) = w\<lparr>proc_calls := proc_calls w @ [cmd]\<rparr>"
    if "config_get w ''KERBEROS'' ''realm'' = Some realm"
       "getprinc_command w (u @ ''@'' @ realm) = Some cmd" for realm cmd
    using that
    by (auto simp: check_kerberos_principal_def check_kerberos_principal_body_def Let_def run_def
          getprinc_command_def split: option.splits if_splits)
  have 3: "fst (check_kerberos_principal w u) = False"
    if "fst (check_kerberos_principal_body w u) = Inl e" for e
    using that by (simp add: check_kerberos_principal_def split_def split: sum.splits)
  show ?thesis using 1 2 3 by blast
qed

text \<open>The realm knows \<open>alice\<close> and not \<open>bob\<close>; a tool that cannot be started gives \<open>False\<close>.\<close>

theorem check_kerberos_principal_iff_witness:
  "config_get kdc_world ''KERBEROS'' ''realm'' = Some ''SCH179.LOCAL''
   \<and> getprinc_command kdc_world ''alice@SCH179.LOCAL'' =
       Some [''kadmin'', ''-p'', ''admin/admin@SCH179.LOCAL'', ''-w'', ''kpw'', ''-q'',
             ''getprinc alice@SCH179.LOCAL'']
   \<and> check_kerberos_principal kdc_world ''alice'' =
       (True, kdc_world\<lparr>proc_calls :=
          [[''kadmin'', ''-p'', ''admin/admin@SCH179.LOCAL'', ''-w'', ''kpw'', ''-q'',
            ''getprinc alice@SCH179.LOCAL'']]\<rparr>)
   \<and> fst (check_kerberos_principal kdc_world ''bob'') = False
   \<and> fst (check_kerberos_principal_body (kdc_world\<lparr>proc := (\<lambda>history cmd. None)\<rparr>) ''alice'') =
       Inl OtherError
   \<and> fst (check_kerberos_principal (kdc_world\<lparr>proc := (\<lambda>history cmd. None)\<rparr>) ''alice'') = False"
proof -
  have r: "config_get kdc_world ''KERBEROS'' ''realm'' = Some ''SCH179.LOCAL''"
    by (simp add: kdc_world_def eval_defs)
  have c: "getprinc_command kdc_world (''alice'' @ ''@'' @ ''SCH179.LOCAL'') =
       Some [''kadmin'', ''-p'', ''admin/admin@SCH179.LOCAL'', ''-w'', ''kpw'', ''-q'',
             ''getprinc alice@SCH179.LOCAL'']"
    by (simp add: getprinc_command_def kdc_world_def eval_defs)
  have p: "proc kdc_world (proc_calls kdc_world)
       [''kadmin'', ''-p'', ''admin/admin@SCH179.LOCAL'', ''-w'', ''kpw'', ''-q'',
        ''getprinc alice@SCH179.LOCAL''] =
       Some \<lparr>returncode = 0,
             stdout = ''Principal: alice@SCH179.LOCAL'' @ [CHR 0x0A] @ ''Expiration date: [never]'',
             stderr = []\<rparr>"
    by (simp add: kdc_world_def kdc_proc_def)
  have m: "contains (''Principal: alice@SCH179.LOCAL'' @ [CHR 0x0A] @ ''Expiration date: [never]'')
             (''Principal: '' @ ''alice'' @ ''@'' @ ''SCH179.LOCAL'')"
    by (simp add: contains_def)
  note t = check_kerberos_principal_iff[of kdc_world "''alice''"]
  have 1: "fst (check_kerberos_principal kdc_world ''alice'') = True"
    using t r c p m by force
  have s1: "snd (check_kerberos_principal kdc_world ''alice'') =
      kdc_world\<lparr>proc_calls := proc_calls kdc_world @
         [[''kadmin'', ''-p'', ''admin/admin@SCH179.LOCAL'', ''-w'', ''kpw'', ''-q'',
            ''getprinc alice@SCH179.LOCAL'']]\<rparr>"
    using t r c by blast
  have e: "proc_calls kdc_world = []" by (simp add: kdc_world_def sample_world_def)
  have 2: "fst (check_kerberos_principal kdc_world ''bob'') = False"
    by code_simp
  have 3: "fst (check_kerberos_principal_body (kdc_world\<lparr>proc := (\<lambda>history cmd. None)\<rparr>) ''alice'') =
      Inl OtherError"
    by (simp add: check_kerberos_principal_body_def kdc_world_def eval_defs)
  have 4: "fst (check_kerberos_principal (kdc_world\<lparr>proc := (\<lambda>history cmd. None)\<rparr>) ''alice'') = False"
    using check_kerberos_principal_iff[of "kdc_world\<lparr>proc := (\<lambda>history cmd. None)\<rparr>" "''alice''"] 3
    by blast
  have 5: "check_kerberos_principal kdc_world ''alice'' =
       (True, kdc_world\<lparr>proc_calls :=
          [[''kadmin'', ''-p'', ''admin/admin@SCH179.LOCAL'', ''-w'', ''kpw'', ''-q'',
            ''getprinc alice@SCH179.LOCAL'']]\<rparr>)"
    using 1 s1 e by (simp add: prod_eq_iff)
  show ?thesis using r c 2 3 4 5 by simp
qed

text \<open>
  C4. When the home base is configured and the first tool can be started, one call of
  \<open>get_all_quotas\<close> starts the quota tools exactly as follows, whatever the reports say
  and however many users they list: for \<open>xfs\<close> the block report and then the inode
  report of \<open>xfs_quota\<close>, two invocations; otherwise \<open>quota -a\<close>, one invocation.
\<close>

theorem get_all_quotas_invocations:
  assumes "config_get w ''NFS'' ''home_base'' = Some home_base"
      and "resolve_filesystem_type w home_base = (filesystem_type, w1)"
      and "lower filesystem_type = ''xfs'' \<longrightarrow> proc w1 (proc_calls w1) (cmd_blocks home_base) \<noteq> None"
  shows "quota_tool_calls (called_since w (snd (get_all_quotas w))) =
           (if lower filesystem_type = ''xfs''
            then [cmd_blocks home_base, cmd_inodes home_base]
            else [[''quota'', ''-a'']])"
proof -
  have r: "quota_tool_calls (called_since w w1) = []" "length (proc_calls w) \<le> length (proc_calls w1)"
    using resolve_calls[of w home_base] assms(2) by simp_all
  have c: "\<And>cs. called_since w (w1\<lparr>proc_calls := proc_calls w1 @ cs\<rparr>) = called_since w w1 @ cs"
    using r(2) by (simp add: called_since_def)
  have q: "\<And>cs. quota_tool_calls (called_since w w1 @ cs) = filter is_quota_tool cs"
    using r(1) by (simp add: quota_tool_calls_def)
  show ?thesis
  proof (cases "lower filesystem_type = ''xfs''")
    case True
    with assms(3) obtain rb where rb: "proc w1 (proc_calls w1) (cmd_blocks home_base) = Some rb"
      by auto
    show ?thesis
      using assms(1,2) True rb
      by (simp add: get_all_quotas_def run_def c q is_quota_tool_def cmd_blocks_def cmd_inodes_def
          split: option.splits)
  next
    case False
    show ?thesis
      using assms(1,2) False
      by (simp add: get_all_quotas_def run_def c q is_quota_tool_def split: option.splits)
  qed
qed

text \<open>A report with three users: two invocations.\<close>

theorem get_all_quotas_invocations_witness:
  "config_get xfs_world ''NFS'' ''home_base'' = Some ''/home''
   \<and> resolve_filesystem_type xfs_world ''/home'' = (''xfs'', xfs_world)
   \<and> proc xfs_world (proc_calls xfs_world) (cmd_blocks ''/home'') \<noteq> None
   \<and> quota_tool_calls (called_since xfs_world (snd (get_all_quotas xfs_world))) =
        [[''xfs_quota'', ''-x'', ''-c'', ''report -h'', ''/home''],
         [''xfs_quota'', ''-x'', ''-c'', ''report -h -i'', ''/home'']]
   \<and> map fst (fst (get_all_quotas xfs_world)) = [''alice'', ''bob'', ''carol'']"
proof -
  have h1: "config_get xfs_world ''NFS'' ''home_base'' = Some ''/home''"
    by (simp add: xfs_world_def eval_defs)
  have h2: "resolve_filesystem_type xfs_world ''/home'' = (''xfs'', xfs_world)"
    by (simp add: xfs_world_def eval_defs)
  have h3: "lower ''xfs'' = ''xfs'' \<longrightarrow> proc xfs_world (proc_calls xfs_world) (cmd_blocks ''/home'') \<noteq> None"
    by (simp add: xfs_world_def xfs_proc_def eval_defs)
  have l: "lower ''xfs'' = ''xfs''" by (simp add: lower_def lower_char_def)
  have k: "map fst (fst (get_all_quotas xfs_world)) = [''alice'', ''bob'', ''carol'']"
    by code_simp
  have h3': "proc xfs_world (proc_calls xfs_world) (cmd_blocks ''/home'') \<noteq> None"
    by (simp add: xfs_world_def xfs_proc_def)
  show ?thesis
    using h1 h2 h3' k get_all_quotas_invocations[OF h1 h2 h3]
    by (simp add: l cmd_blocks_def cmd_inodes_def)
qed

text \<open>
  C8. When no line of any tool output has the user name as its first field, the quota
  cell of the listing is the text for "not set" (line 645): the table of
  \<open>get_all_quotas\<close> has no record for the user, empty or not. When no line of any tool
  output starts with the user name, the single-user \<open>get_user_quota\<close> on \<open>xfs\<close> answers
  with the same text (line 580), provided that the tools can be started.
\<close>

theorem absent_user_not_set:
  "((\<forall>history cmd result line. proc w history cmd = Some result \<longrightarrow>
        line \<in> set (report_lines (stdout result)) \<longrightarrow>
        \<not> (split_ws line \<noteq> [] \<and> split_ws line ! 0 = u)) \<longrightarrow>
      list_users_quota (fst (get_all_quotas w)) u = not_set)
   \<and> ((\<forall>history cmd result line. proc w history cmd = Some result \<longrightarrow>
        line \<in> set (report_lines (stdout result)) \<longrightarrow> \<not> startswith (strip line) u) \<longrightarrow>
      config_get w ''NFS'' ''home_base'' = Some home_base \<longrightarrow>
      lower (fst (resolve_filesystem_type w home_base)) = ''xfs'' \<longrightarrow>
      (\<forall>history cmd. proc w history cmd \<noteq> None) \<longrightarrow>
      fst (get_user_quota w u) = not_set)"
proof -
  have 1: "list_users_quota (fst (get_all_quotas w)) u = not_set"
    if n: "\<forall>history cmd result line. proc w history cmd = Some result \<longrightarrow>
        line \<in> set (report_lines (stdout result)) \<longrightarrow>
        \<not> (split_ws line \<noteq> [] \<and> split_ws line ! 0 = u)"
  proof -
    have a: "\<And>hb history cmd result.
        proc (snd (resolve_filesystem_type w hb)) history cmd = Some result \<Longrightarrow>
        \<forall>line \<in> set (report_lines (stdout result)). \<not> (split_ws line \<noteq> [] \<and> split_ws line ! 0 = u)"
      using n by (simp add: resolve_proc)
    have "map_of (fst (get_all_quotas w)) u = None"
      by (auto simp: get_all_quotas_def run_def split_def map_of_add_quota_str
            parse_xfs_report_no_row parse_generic_report_no_row dest!: a split: option.splits)
    then show ?thesis by (rule list_users_quota_absent)
  qed
  have 2: "fst (get_user_quota w u) = not_set"
    if n: "\<forall>history cmd result line. proc w history cmd = Some result \<longrightarrow>
        line \<in> set (report_lines (stdout result)) \<longrightarrow> \<not> startswith (strip line) u"
       and c: "config_get w ''NFS'' ''home_base'' = Some home_base"
       and x: "lower (fst (resolve_filesystem_type w home_base)) = ''xfs''"
       and t: "\<forall>history cmd. proc w history cmd \<noteq> None"
  proof -
    let ?w1 = "snd (resolve_filesystem_type w home_base)"
    obtain rb where rb: "proc w (proc_calls ?w1) (cmd_blocks home_base) = Some rb"
      using t by auto
    obtain ri where ri:
      "proc w (proc_calls ?w1 @ [cmd_blocks home_base]) (cmd_inodes home_base) = Some ri"
      using t by auto
    have "scan_xfs_report u rb = None" "scan_xfs_report u ri = None"
      using n rb ri by (auto intro!: scan_xfs_report_absent)
    then show ?thesis
      using c x rb ri
      by (simp add: get_user_quota_def run_def split_def Let_def resolve_proc render_xfs_def
          truthy_def)
  qed
  show ?thesis using 1 2 by blast
qed

lemma xfs_report_lines:
  "report_lines xfs_report =
     [''User quota on /home (/dev/sdb1)'',
      ''                        Blocks'',
      ''User ID      Used   Soft   Hard Warn/Grace'',
      ''---------- ---------------------------------'',
      ''root            0      0      0  00 [------]'',
      ''alice         50M   100M   200M  00 [------]'',
      ''bob           10M   100M   200M  00 [------]'',
      ''carol          1M   100M   200M  00 [------]'']"
  by code_simp

text \<open>\<open>dave\<close> is in no report, \<open>al\<close> is no first field of a row; \<open>bob\<close> has a row.\<close>

theorem absent_user_not_set_witness:
  "list_all (\<lambda>line. \<not> startswith (strip line) ''dave'') (report_lines xfs_report)
   \<and> list_users_quota (fst (get_all_quotas xfs_world)) ''dave'' = not_set
   \<and> fst (get_user_quota xfs_world ''dave'') = not_set
   \<and> list_users_quota (fst (get_all_quotas xfs_world)) ''al'' = not_set
   \<and> list_users_quota (fst (get_all_quotas xfs_world)) ''bob'' =
       ''blocks: 10M/100M/200M; inodes: 10M/100M/200M''"
proof -
  have h: "\<forall>history cmd result line. proc xfs_world history cmd = Some result \<longrightarrow>
             line \<in> set (report_lines (stdout result)) \<longrightarrow> \<not> startswith (strip line) ''dave''"
    by (auto simp: xfs_world_def xfs_proc_def xfs_report_lines startswith_def strip_def is_space_def)
  have h': "list_all (\<lambda>line. \<not> startswith (strip line) ''dave'') (report_lines xfs_report)"
    by (simp add: xfs_report_lines startswith_def strip_def is_space_def)
  have f: "map (\<lambda>line. split_ws line ! 0) (filter (\<lambda>line. split_ws line \<noteq> []) (report_lines xfs_report)) =
     [''User'', ''Blocks'', ''User'', ''----------'', ''root'', ''alice'', ''bob'', ''carol'']"
    by code_simp
  have g: "\<forall>history cmd result line. proc xfs_world history cmd = Some result \<longrightarrow>
             line \<in> set (report_lines (stdout result)) \<longrightarrow>
             \<not> (split_ws line \<noteq> [] \<and> split_ws line ! 0 = n)"
    if "n \<notin> set [''User'', ''Blocks'', ''User'', ''----------'', ''root'', ''alice'', ''bob'', ''carol'']" for n
  proof (intro allI impI)
    fix history cmd result line
    assume p: "proc xfs_world history cmd = Some result" and l: "line \<in> set (report_lines (stdout result))"
    from p have "stdout result = xfs_report" by (auto simp: xfs_world_def xfs_proc_def)
    with l have l': "line \<in> set (report_lines xfs_report)" by simp
    show "\<not> (split_ws line \<noteq> [] \<and> split_ws line ! 0 = n)"
    proof
      assume a: "split_ws line \<noteq> [] \<and> split_ws line ! 0 = n"
      then have "n \<in> set (map (\<lambda>line. split_ws line ! 0) (filter (\<lambda>line. split_ws line \<noteq> []) (report_lines xfs_report)))"
        using l' by auto
      with that show False unfolding f by simp
    qed
  qed
  have g1: "\<forall>history cmd result line. proc xfs_world history cmd = Some result \<longrightarrow>
             line \<in> set (report_lines (stdout result)) \<longrightarrow>
             \<not> (split_ws line \<noteq> [] \<and> split_ws line ! 0 = ''dave'')"
    by (rule g) simp
  have g2: "\<forall>history cmd result line. proc xfs_world history cmd = Some result \<longrightarrow>
             line \<in> set (report_lines (stdout result)) \<longrightarrow>
             \<not> (split_ws line \<noteq> [] \<and> split_ws line ! 0 = ''al'')"
    by (rule g) simp
  have c: "config_get xfs_world ''NFS'' ''home_base'' = Some ''/home''"
    by (simp add: xfs_world_def eval_defs)
  have x: "lower (fst (resolve_filesystem_type xfs_world ''/home'')) = ''xfs''"
    by (simp add: xfs_world_def eval_defs)
  have p: "\<forall>history cmd. proc xfs_world history cmd \<noteq> None"
    by (simp add: xfs_world_def xfs_proc_def)
  have b: "list_users_quota (fst (get_all_quotas xfs_world)) ''bob'' =
      ''blocks: 10M/100M/200M; inodes: 10M/100M/200M''"
    by code_simp
  from absent_user_not_set[of xfs_world "''dave''" "''/home''"] g1 h c x p
  have d: "list_users_quota (fst (get_all_quotas xfs_world)) ''dave'' = not_set"
    "fst (get_user_quota xfs_world ''dave'') = not_set" by blast+
  from absent_user_not_set[of xfs_world "''al''" "''/home''"] g2
  have a: "list_users_quota (fst (get_all_quotas xfs_world)) ''al'' = not_set" by blast
  show ?thesis using h' d a b by simp
qed

text \<open>
  Where the two parsers read the same rows for a user (\<open>xfs_same_rows\<close> on \<open>xfs\<close>,
  \<open>generic_same_row\<close> otherwise), the single-user \<open>get_user_quota\<close> returns the text that
  the listing shows from the table of \<open>get_all_quotas\<close>.
\<close>

lemma same_rows_same_text:
  assumes "config_get w ''NFS'' ''home_base'' = Some home_base"
      and "resolve_filesystem_type w home_base = (filesystem_type, w1)"
      and "if lower filesystem_type = ''xfs'' then xfs_same_rows w1 home_base u
           else generic_same_row w1 u"
  shows "fst (get_user_quota w u) = list_users_quota (fst (get_all_quotas w)) u"
proof (cases "lower filesystem_type = ''xfs''")
  case True
  with assms(3) have x: "xfs_same_rows w1 home_base u" by simp
  then obtain rb w2 where rb: "run w1 (cmd_blocks home_base) = (Some rb, w2)"
    by (auto simp: xfs_same_rows_def split: prod.splits option.splits)
  with x obtain ri w3 where ri: "run w2 (cmd_inodes home_base) = (Some ri, w3)"
    by (auto simp: xfs_same_rows_def split: prod.splits option.splits)
  have e: "u \<notin> set xfs_skipped" "xfs_rows_exact u rb" "xfs_rows_exact u ri"
    using x rb ri by (simp_all add: xfs_same_rows_def)
  show ?thesis
    using assms(1,2) True rb ri xfs_agree[OF e]
    by (simp add: get_user_quota_def get_all_quotas_def Let_def)
next
  case False
  with assms(3) have g: "generic_same_row w1 u" by simp
  then obtain batch where b: "fst (run w1 [''quota'', ''-a'']) = Some batch"
    by (auto simp: generic_same_row_def split: option.splits)
  with g obtain single where s: "fst (run w1 [''quota'', ''-u'', u]) = Some single"
    by (auto simp: generic_same_row_def split: option.splits)
  have "list_users_quota (parse_generic_report batch) u = render_generic single"
    using g b s by (intro generic_agree) (simp_all add: generic_same_row_def)
  then show ?thesis
    using assms(1,2) False b s
    by (simp add: get_user_quota_def get_all_quotas_def split_def split: option.splits)
qed

text \<open>The example of the specification on \<open>xfs\<close>, and a row on another file system.\<close>

lemma same_rows_same_text_example:
  "fst (get_user_quota example_world ''alice'') = ''blocks: 50M/100M/200M; inodes: 500/1000/2000''
   \<and> list_users_quota (fst (get_all_quotas example_world)) ''alice'' =
       ''blocks: 50M/100M/200M; inodes: 500/1000/2000''
   \<and> fst (get_user_quota generic_world ''alice'') = ''blocks: 24/100; inodes: 0/7''
   \<and> list_users_quota (fst (get_all_quotas generic_world)) ''alice'' =
       ''blocks: 24/100; inodes: 0/7''"
proof -
  have c: "config_get example_world ''NFS'' ''home_base'' = Some ''/home''"
    by (simp add: example_world_def eval_defs)
  have r: "resolve_filesystem_type example_world ''/home'' = (''xfs'', example_world)"
    by (simp add: example_world_def eval_defs)
  have x: "xfs_same_rows example_world ''/home'' ''alice''"
    by code_simp
  have h: "if lower ''xfs'' = ''xfs'' then xfs_same_rows example_world ''/home'' ''alice''
           else generic_same_row example_world ''alice''"
    using x by (simp add: lower_def lower_char_def)
  have v: "fst (get_user_quota example_world ''alice'') =
      ''blocks: 50M/100M/200M; inodes: 500/1000/2000''"
    by code_simp
  have c': "config_get generic_world ''NFS'' ''home_base'' = Some ''/home''"
    by (simp add: generic_world_def eval_defs)
  have r': "resolve_filesystem_type generic_world ''/home'' = (''ext4'', generic_world)"
    by (simp add: generic_world_def eval_defs)
  have g: "generic_same_row generic_world ''alice''"
    by code_simp
  have h': "if lower ''ext4'' = ''xfs'' then xfs_same_rows generic_world ''/home'' ''alice''
           else generic_same_row generic_world ''alice''"
    using g by (simp add: lower_def lower_char_def)
  have v': "fst (get_user_quota generic_world ''alice'') = ''blocks: 24/100; inodes: 0/7''"
    by code_simp
  show ?thesis
    using same_rows_same_text[OF c r h] same_rows_same_text[OF c' r' h'] v v' by simp
qed

text \<open>
  C5. The claim fails on the code, by a slip of \<open>get_user_quota\<close>: it takes every report
  line that starts with the user name (lines 557 and 571), where \<open>get_all_quotas\<close> takes
  the lines whose first field is the name. With \<open>alice\<close> and \<open>alice2\<close> in both
  \<open>xfs\<close> reports, the table of \<open>get_all_quotas\<close> holds a row for each, and the listing
  shows the row of \<open>alice\<close> for her; \<open>get_user_quota\<close> returns the row of \<open>alice2\<close> for
  \<open>alice\<close>.
\<close>

theorem get_user_quota_prefix_slip:
  "map fst (fst (get_all_quotas prefix_world)) = [''alice'', ''alice2'']
   \<and> list_users_quota (fst (get_all_quotas prefix_world)) ''alice'' =
       ''blocks: 50M/100M/200M; inodes: 500/1000/2000''
   \<and> fst (get_user_quota prefix_world ''alice'') = ''blocks: 7M/100M/200M; inodes: 70/1000/2000''"
  by code_simp

section \<open>The batch file\<close>

text \<open>
  C6, as the code has it. A line that is neither blank nor a comment, and that has not
  exactly six fields or whose first field is no integer, is passed over: the result
  dictionary stays as it is, one record with the line number is logged (a warning for
  the number of fields, a record of level error for the uid), and the rest of the file
  is processed from there; the result is the one that the rest of the file gives
  without the line. The result of a file is the result of its accepted lines, and its
  keys are user names of accepted lines. A file that does not exist gives the empty
  result.
\<close>

theorem malformed_lines_skipped:
  "(\<not> ignored raw \<and> (length (fields raw) \<noteq> 6 \<or> py_int 10 (fields raw ! 0) = None) \<longrightarrow>
      process_lines w results n (raw # rest) steps =
        process_lines
          (say (if length (fields raw) \<noteq> 6 then Warning else Error)
               (if length (fields raw) \<noteq> 6 then LineBadFormat n else LineParseError n) w)
          results (Suc n) rest steps
      \<and> fst (process_lines w results n (raw # rest) steps) =
          fst (process_lines w results n rest steps))
   \<and> (files w name = Lines ls \<longrightarrow>
        fst (process_user_file w name steps) = fst (process_lines w [] 1 (filter accepted ls) steps)
        \<and> set (map fst (fst (process_user_file w name steps))) \<subseteq>
            set (map (\<lambda>raw. fields raw ! 2) (filter accepted ls)))
   \<and> (files w name = NoSuchFile \<longrightarrow>
        process_user_file w name steps = ([], say Error (FileNotFound name) w))"
proof -
  have 1: "process_lines w results n (raw # rest) steps =
        process_lines
          (say (if length (fields raw) \<noteq> 6 then Warning else Error)
               (if length (fields raw) \<noteq> 6 then LineBadFormat n else LineParseError n) w)
          results (Suc n) rest steps"
    if "\<not> ignored raw" "length (fields raw) \<noteq> 6 \<or> py_int 10 (fields raw ! 0) = None"
    using process_line_skip[OF that, of w results n steps] by simp
  have 2: "fst (process_lines w results n (raw # rest) steps) = fst (process_lines w results n rest steps)"
    if "\<not> ignored raw" "length (fields raw) \<noteq> 6 \<or> py_int 10 (fields raw ! 0) = None"
  proof -
    have na: "\<not> accepted raw" using that by (auto simp: accepted_def)
    have "fst (process_lines w results n (raw # rest) steps) =
          fst (process_lines w results n (filter accepted (raw # rest)) steps)"
      using process_lines_filter[OF eqv_refl, of w results n "raw # rest" steps n] by simp
    also have "\<dots> = fst (process_lines w results n (filter accepted rest) steps)"
      using na by simp
    also have "\<dots> = fst (process_lines w results n rest steps)"
      using process_lines_filter[OF eqv_refl, of w results n rest steps n] by simp
    finally show ?thesis .
  qed
  have 3: "fst (process_user_file w name steps) = fst (process_lines w [] 1 (filter accepted ls) steps)"
    if "files w name = Lines ls"
    using that process_lines_filter[OF eqv_refl, of w "[]" 1 ls steps 1]
    by (simp add: process_user_file_def)
  have 4: "set (map fst (fst (process_user_file w name steps))) \<subseteq>
            set (map (\<lambda>raw. fields raw ! 2) (filter accepted ls))"
    if "files w name = Lines ls"
    using that process_lines_keys[of w "[]" 1 ls steps] by (simp add: process_user_file_def)
  have 5: "process_user_file w name steps = ([], say Error (FileNotFound name) w)"
    if "files w name = NoSuchFile"
    using that by (simp add: process_user_file_def)
  show ?thesis using 1 2 3 4 5 by blast
qed


text \<open>Lines 4 and 5 of the sample manifest are malformed; \<open>missing.txt\<close> does not exist.\<close>

theorem malformed_lines_skipped_witness:
  "fst (process_user_file manifest_world ''users.txt'' (Some [''home''])) = [(''alice'', True)]
   \<and> filter (\<lambda>r. fst r \<noteq> Info) (logs (snd (process_user_file manifest_world ''users.txt'' (Some [''home''])))) =
       [(Warning, LineBadFormat 4), (Error, LineParseError 5)]
   \<and> process_lines manifest_world [] 4 (drop 3 manifest) (Some [''home'']) =
       process_lines (say Warning (LineBadFormat 4) manifest_world) [] 5 (drop 4 manifest) (Some [''home''])
   \<and> process_user_file manifest_world ''missing.txt'' (Some [''home'']) =
       ([], say Error (FileNotFound ''missing.txt'') manifest_world)"
proof -
  have d: "drop 3 manifest = manifest ! 3 # drop 4 manifest" by (simp add: manifest_def)
  have h1: "\<not> ignored (manifest ! 3)" by code_simp
  have h2: "length (fields (manifest ! 3)) \<noteq> 6" by code_simp
  have h3: "files manifest_world ''missing.txt'' = NoSuchFile" by (simp add: manifest_world_def eval_defs)
  have v1: "fst (process_user_file manifest_world ''users.txt'' (Some [''home''])) = [(''alice'', True)]"
    by code_simp
  have v2: "filter (\<lambda>r. fst r \<noteq> Info) (logs (snd (process_user_file manifest_world ''users.txt'' (Some [''home''])))) =
       [(Warning, LineBadFormat 4), (Error, LineParseError 5)]"
    by code_simp
  have h4: "files manifest_world ''users.txt'' = Lines manifest"
    by (simp add: manifest_world_def)
  show ?thesis
    using malformed_lines_skipped[of "manifest ! 3" manifest_world "[]" 4 "drop 4 manifest"
        "Some [''home'']" "''missing.txt''" "[]"]
      malformed_lines_skipped[of "manifest ! 3" manifest_world "[]" 4 "drop 4 manifest"
        "Some [''home'']" "''users.txt''" manifest]
      h1 h2 h3 h4 v1 v2
    unfolding d by simp
qed

text \<open>
  C6 as the specification states it fails in the level of the record: line 5 of the
  sample manifest has six fields and the uid \<open>x1003\<close>; it is passed over with a record
  of level error (line 395), and no warning is logged.
\<close>

theorem uid_error_level_counterexample:
  "\<not> ignored (manifest ! 4) \<and> length (fields (manifest ! 4)) = 6
   \<and> py_int 10 (fields (manifest ! 4) ! 0) = None
   \<and> process_line manifest_world [] 5 (manifest ! 4) None =
       ([], say Error (LineParseError 5) manifest_world)
   \<and> filter (\<lambda>r. fst r = Warning) (logs (snd (process_line manifest_world [] 5 (manifest ! 4) None))) = []"
proof -
  have 1: "\<not> ignored (manifest ! 4)" by code_simp
  have 2: "length (fields (manifest ! 4)) = 6" by code_simp
  have 3: "py_int 10 (fields (manifest ! 4) ! 0) = None" by code_simp
  have 4: "process_line manifest_world [] 5 (manifest ! 4) None =
       ([], say Error (LineParseError 5) manifest_world)"
    using process_line_skip[of "manifest ! 4" manifest_world "[]" 5 None] 1 2 3 by simp
  show ?thesis using 1 2 3 unfolding 4
    by (simp add: say_def manifest_world_def sample_world_def)
qed

text \<open>
  C10. For a manifest in which an accepted line with user name \<open>u\<close> is followed by no
  other accepted line with that name: \<open>add_user\<close> is called once for every accepted line,
  in the order of the file; the result has one entry for each name; and the entry of
  \<open>u\<close> is the overall result of the call for that last line, made in the environment
  that the lines before it left.
\<close>

theorem duplicate_usernames:
  assumes "files w name = Lines (pre @ raw # post)"
      and "accepted raw" "py_int 10 (fields raw ! 0) = Some uid"
      and "\<forall>later \<in> set post. \<not> (accepted later \<and> fields later ! 2 = fields raw ! 2)"
  shows "started (logged_since w (snd (process_user_file w name steps))) =
           map (\<lambda>raw. fields raw ! 2) (filter accepted (pre @ raw # post))
       \<and> distinct (map fst (fst (process_user_file w name steps)))
       \<and> map_of (fst (process_user_file w name steps)) (fields raw ! 2) =
           Some (fst (add_user (snd (process_lines w [] 1 pre steps)) uid (fields raw ! 1)
                        (fields raw ! 2) (fields raw ! 3) (fields raw ! 4) (fields raw ! 5) steps))"
proof -
  let ?ls = "pre @ raw # post"
  have f: "process_user_file w name steps = process_lines w [] 1 ?ls steps"
    using assms(1) by (simp add: process_user_file_def)
  obtain L where L: "logs (snd (process_lines w [] 1 ?ls steps)) = logs w @ L"
      "started L = map (\<lambda>raw. fields raw ! 2) (filter accepted ?ls)"
    using process_lines_started[of w "[]" 1 ?ls steps] by blast
  have 1: "started (logged_since w (snd (process_user_file w name steps))) =
           map (\<lambda>raw. fields raw ! 2) (filter accepted ?ls)"
    unfolding f logged_since_def L(1) using L(2) by simp
  have 2: "distinct (map fst (fst (process_user_file w name steps)))"
    unfolding f by (rule process_lines_distinct) simp
  let ?w1 = "snd (process_lines w [] 1 pre steps)"
  let ?r1 = "fst (process_lines w [] 1 pre steps)"
  let ?s = "process_line ?w1 ?r1 (1 + length pre) raw steps"
  have "process_lines w [] 1 ?ls steps = process_lines (snd ?s) (fst ?s) (Suc (1 + length pre)) post steps"
    by (simp add: process_lines_append split_def)
  then have "map_of (fst (process_lines w [] 1 ?ls steps)) (fields raw ! 2) = map_of (fst ?s) (fields raw ! 2)"
    using process_lines_other[OF assms(4), of "snd ?s" "fst ?s" "Suc (1 + length pre)" steps] by simp
  then have 3: "map_of (fst (process_user_file w name steps)) (fields raw ! 2) =
           Some (fst (add_user ?w1 uid (fields raw ! 1)
                        (fields raw ! 2) (fields raw ! 3) (fields raw ! 4) (fields raw ! 5) steps))"
    unfolding f using process_line_accepted[OF assms(2,3), of ?w1 ?r1 "1 + length pre" steps] by simp
  show ?thesis using 1 2 3 by simp
qed


text \<open>\<open>alice\<close> twice: the first call succeeds, the second finds her entry and fails.\<close>

theorem duplicate_usernames_witness:
  "started (logged_since manifest_world (snd (process_user_file manifest_world ''users.txt'' None))) =
     [''alice'', ''alice'']
   \<and> fst (process_user_file manifest_world ''users.txt'' None) = [(''alice'', False)]
   \<and> fst (add_user manifest_world 1001 ''students'' ''alice'' ''Ivanova'' ''Alice'' ''secret123'' None) = True"
proof -
  have h1: "files manifest_world ''users.txt'' = Lines (take 5 manifest @ manifest ! 5 # [])"
    by (simp add: manifest_world_def manifest_def)
  have h2: "accepted (manifest ! 5)" by code_simp
  have h3: "py_int 10 (fields (manifest ! 5) ! 0) = Some 1001" by code_simp
  have h4: "\<forall>later \<in> set []. \<not> (accepted later \<and> fields later ! 2 = fields (manifest ! 5) ! 2)"
    by simp
  have v1: "fst (process_user_file manifest_world ''users.txt'' None) = [(''alice'', False)]"
    by code_simp
  have v2: "fst (add_user manifest_world 1001 ''students'' ''alice'' ''Ivanova'' ''Alice'' ''secret123'' None) = True"
    by code_simp
  have v3: "map (\<lambda>raw. fields raw ! 2) (filter accepted (take 5 manifest @ manifest ! 5 # [])) = [''alice'', ''alice'']"
    by code_simp
  show ?thesis
    using duplicate_usernames[OF h1 h2 h3 h4, of None] v1 v2 v3 by simp
qed

end
